theory Spec2Isabelle
  imports Main
begin

section \<open>JavaScript values as the program sees them\<close>

text \<open>
  The program (\<^verbatim>\<open>src/main.js\<close>) works on the values that \<^verbatim>\<open>res.json()\<close> hands
  back. A number is an IEEE double; the program only ever tests it for truthiness or
  turns it into text, so a number is kept as the text \<^verbatim>\<open>Number.prototype.toString\<close>
  prints for it (\<^verbatim>\<open>0.7\<close>, \<^verbatim>\<open>200\<close>, \<^verbatim>\<open>NaN\<close>, \<^verbatim>\<open>Infinity\<close>; both zeros print
  as \<^verbatim>\<open>0\<close>).
\<close>

datatype jsnumber = Num string

text \<open>
  A parsed JSON value. \<open>JObj\<close> lists the own properties of the object in enumeration
  order (\<^verbatim>\<open>JSON.parse\<close> has already resolved duplicate keys, so a parsed object has
  distinct keys). \<open>undefined\<close> is not a JSON value: an expression that may be
  \<open>undefined\<close> has type \<open>json option\<close> with \<open>None\<close> for \<open>undefined\<close>.
  Strings are sequences of code units below 256.
\<close>

datatype json =
    JNull
  | JBool bool
  | JNum jsnumber
  | JStr string
  | JArr "json list"
  | JObj "(string \<times> json) list"

type_synonym jsval = "json option"

text \<open>Exceptions the program can meet.\<close>

datatype js_error =
    TypeError               \<comment> \<open>raised by the engine: property of null/undefined, not a function, ...\<close>
  | SyntaxError             \<comment> \<open>\<^verbatim>\<open>res.json()\<close> on a body that is not JSON\<close>
  | Error string            \<comment> \<open>\<^verbatim>\<open>throw new Error(msg)\<close> in the program\<close>
  | FetchRejected string    \<comment> \<open>\<^verbatim>\<open>fetch\<close> rejected (network, CORS) with this message\<close>

subsection \<open>Truthiness, \<^verbatim>\<open>&&\<close>, \<^verbatim>\<open>||\<close>\<close>

fun truthy :: "json \<Rightarrow> bool" where
  "truthy JNull = False"
| "truthy (JBool b) = b"
| "truthy (JNum (Num t)) = (t \<noteq> ''0'' \<and> t \<noteq> ''NaN'')"
| "truthy (JStr s) = (s \<noteq> [])"
| "truthy (JArr _) = True"
| "truthy (JObj _) = True"

fun truthy_u :: "jsval \<Rightarrow> bool" where
  "truthy_u None = False"
| "truthy_u (Some v) = truthy v"

text \<open>
  \<^verbatim>\<open>a && b\<close> and \<^verbatim>\<open>a || b\<close> evaluate \<open>b\<close> only when \<open>a\<close> does not decide; an
  exception in \<open>a\<close> propagates, one in an unevaluated \<open>b\<close> does not happen.
\<close>

definition js_and :: "js_error + jsval \<Rightarrow> js_error + jsval \<Rightarrow> js_error + jsval" where
  "js_and a b = (case a of Inl e \<Rightarrow> Inl e | Inr v \<Rightarrow> if truthy_u v then b else Inr v)"

definition js_or :: "js_error + jsval \<Rightarrow> js_error + jsval \<Rightarrow> js_error + jsval" where
  "js_or a b = (case a of Inl e \<Rightarrow> Inl e | Inr v \<Rightarrow> if truthy_u v then Inr v else b)"

subsection \<open>Property access\<close>

text \<open>
  \<^verbatim>\<open>v.k\<close> for the property names the program uses (\<open>choices\<close>, \<open>message\<close>,
  \<open>content\<close>, \<open>text\<close>, \<open>delta\<close>, \<open>output\<close>, \<open>result\<close>, \<open>id\<close>, \<open>name\<close>,
  \<open>model\<close>, \<open>data\<close>, \<open>models\<close>): none of them is inherited from a prototype, so
  on a primitive or an array the result is \<open>undefined\<close>. On \<open>null\<close> and
  \<open>undefined\<close> the engine raises a TypeError.
\<close>

fun get :: "jsval \<Rightarrow> string \<Rightarrow> js_error + jsval" where
  "get None k = Inl TypeError"
| "get (Some JNull) k = Inl TypeError"
| "get (Some (JObj kvs)) k = Inr (map_of kvs k)"
| "get (Some _) k = Inr None"

text \<open>\<^verbatim>\<open>e.k\<close> where \<open>e\<close> is itself an expression that may have raised.\<close>

definition dot :: "js_error + jsval \<Rightarrow> string \<Rightarrow> js_error + jsval" where
  "dot e k = (case e of Inl err \<Rightarrow> Inl err | Inr v \<Rightarrow> get v k)"

text \<open>\<^verbatim>\<open>v[0]\<close>.\<close>

fun index0 :: "jsval \<Rightarrow> js_error + jsval" where
  "index0 None = Inl TypeError"
| "index0 (Some JNull) = Inl TypeError"
| "index0 (Some (JArr [])) = Inr None"
| "index0 (Some (JArr (x # xs))) = Inr (Some x)"
| "index0 (Some (JStr [])) = Inr None"
| "index0 (Some (JStr (c # cs))) = Inr (Some (JStr [c]))"
| "index0 (Some (JObj kvs)) = Inr (map_of kvs ''0'')"
| "index0 (Some _) = Inr None"

fun isArray :: "jsval \<Rightarrow> bool" where
  "isArray (Some (JArr _)) = True"
| "isArray _ = False"

subsection \<open>Conversion to string\<close>

fun join_strs :: "string \<Rightarrow> string list \<Rightarrow> string" where
  "join_strs sep [] = []"
| "join_strs sep [x] = x"
| "join_strs sep (x # y # ys) = x @ sep @ join_strs sep (y # ys)"

text \<open>
  \<^verbatim>\<open>String(v)\<close> (the abstract operation ToString). An array is joined with commas,
  \<open>null\<close> elements giving the empty string. A parsed object has no callable
  property, so one with an own \<open>toString\<close> key cannot be converted (TypeError); any
  other prints as \<^verbatim>\<open>[object Object]\<close>.
\<close>

fun toString_raises :: "json \<Rightarrow> bool" where
  "toString_raises (JArr xs) = (\<exists>x \<in> set xs. toString_raises x)"
| "toString_raises (JObj kvs) = (''toString'' \<in> fst ` set kvs)"
| "toString_raises _ = False"

fun toString_text :: "json \<Rightarrow> string" where
  "toString_text JNull = ''null''"
| "toString_text (JBool b) = (if b then ''true'' else ''false'')"
| "toString_text (JNum (Num t)) = t"
| "toString_text (JStr s) = s"
| "toString_text (JArr xs) =
     join_strs '','' (map (\<lambda>x. if x = JNull then [] else toString_text x) xs)"
| "toString_text (JObj kvs) = ''[object Object]''"

definition ToString :: "jsval \<Rightarrow> js_error + string" where
  "ToString v = (case v of
       None \<Rightarrow> Inr ''undefined''
     | Some x \<Rightarrow> if toString_raises x then Inl TypeError else Inr (toString_text x))"

text \<open>\<^verbatim>\<open>xs.join(sep)\<close> on an array whose elements may be \<open>undefined\<close>.\<close>

definition array_join :: "string \<Rightarrow> jsval list \<Rightarrow> js_error + string" where
  "array_join sep xs =
     (if \<exists>x \<in> set xs. case x of None \<Rightarrow> False | Some v \<Rightarrow> toString_raises v
      then Inl TypeError
      else Inr (join_strs sep
             (map (\<lambda>x. case x of None \<Rightarrow> [] | Some v \<Rightarrow> if v = JNull then [] else toString_text v) xs)))"

subsection \<open>\<^verbatim>\<open>JSON.stringify\<close>\<close>

definition hex_digit :: "nat \<Rightarrow> char" where
  "hex_digit n = (if n < 10 then char_of (48 + n) else char_of (87 + n))"

text \<open>One code unit inside a quoted JSON string (QuoteJSONString).\<close>

definition json_escape :: "char \<Rightarrow> string" where
  "json_escape c =
     (let n = (of_char c :: nat) in
      if n = 34 then [CHR 0x5C, CHR 0x22]
      else if n = 92 then [CHR 0x5C, CHR 0x5C]
      else if n = 8 then [CHR 0x5C, CHR ''b'']
      else if n = 9 then [CHR 0x5C, CHR ''t'']
      else if n = 10 then [CHR 0x5C, CHR ''n'']
      else if n = 12 then [CHR 0x5C, CHR ''f'']
      else if n = 13 then [CHR 0x5C, CHR ''r'']
      else if n < 32 then [CHR 0x5C, CHR ''u'', CHR ''0'', CHR ''0'', hex_digit (n div 16), hex_digit (n mod 16)]
      else [c])"

definition json_quote :: "string \<Rightarrow> string" where
  "json_quote s = [CHR 0x22] @ concat (map json_escape s) @ [CHR 0x22]"

definition json_number :: "jsnumber \<Rightarrow> string" where
  "json_number n = (case n of Num t \<Rightarrow>
     if t = ''NaN'' \<or> t = ''Infinity'' \<or> t = ''-Infinity'' then ''null'' else t)"

text \<open>\<^verbatim>\<open>JSON.stringify(v)\<close>.\<close>

fun JSON_stringify :: "json \<Rightarrow> string" where
  "JSON_stringify JNull = ''null''"
| "JSON_stringify (JBool b) = (if b then ''true'' else ''false'')"
| "JSON_stringify (JNum n) = json_number n"
| "JSON_stringify (JStr s) = json_quote s"
| "JSON_stringify (JArr xs) = ''['' @ join_strs '','' (map JSON_stringify xs) @ '']''"
| "JSON_stringify (JObj kvs) =
     ''{'' @ join_strs '','' (map (\<lambda>kv. json_quote (fst kv) @ '':'' @ JSON_stringify (snd kv)) kvs) @ ''}''"

text \<open>
  \<^verbatim>\<open>JSON.stringify(v, null, 2)\<close>, for a value that starts at indentation \<open>ind\<close>: each
  level adds two spaces, an empty array or object stays on one line.
\<close>

fun stringify_indent :: "nat \<Rightarrow> json \<Rightarrow> string" where
  "stringify_indent ind JNull = ''null''"
| "stringify_indent ind (JBool b) = (if b then ''true'' else ''false'')"
| "stringify_indent ind (JNum n) = json_number n"
| "stringify_indent ind (JStr s) = json_quote s"
| "stringify_indent ind (JArr xs) =
     (if xs = [] then ''[]''
      else ''['' @ [CHR 0x0A] @ replicate (ind + 2) CHR '' ''
           @ join_strs ('','' @ [CHR 0x0A] @ replicate (ind + 2) CHR '' '')
               (map (stringify_indent (ind + 2)) xs)
           @ [CHR 0x0A] @ replicate ind CHR '' '' @ '']'')"
| "stringify_indent ind (JObj kvs) =
     (if kvs = [] then ''{}''
      else ''{'' @ [CHR 0x0A] @ replicate (ind + 2) CHR '' ''
           @ join_strs ('','' @ [CHR 0x0A] @ replicate (ind + 2) CHR '' '')
               (map (\<lambda>kv. json_quote (fst kv) @ '': '' @ stringify_indent (ind + 2) (snd kv)) kvs)
           @ [CHR 0x0A] @ replicate ind CHR '' '' @ ''}'')"

definition JSON_stringify_pretty :: "json \<Rightarrow> string" where
  "JSON_stringify_pretty v = stringify_indent 0 v"

text \<open>\<^verbatim>\<open>xs.map(f)\<close> where \<open>f\<close> may raise: the first exception ends the loop.\<close>

fun array_map :: "('a \<Rightarrow> js_error + 'b) \<Rightarrow> 'a list \<Rightarrow> js_error + 'b list" where
  "array_map f [] = Inr []"
| "array_map f (x # xs) =
     (case f x of Inl e \<Rightarrow> Inl e
      | Inr y \<Rightarrow> (case array_map f xs of Inl e \<Rightarrow> Inl e | Inr ys \<Rightarrow> Inr (y # ys)))"

subsection \<open>Regular expressions of the program\<close>

definition to_upper :: "char \<Rightarrow> char" where
  "to_upper c = (let n = (of_char c :: nat) in if 97 \<le> n \<and> n \<le> 122 then char_of (n - 32) else c)"

text \<open>A literal matched at the start of the subject, ignoring (ASCII) case: flag \<^verbatim>\<open>i\<close>.\<close>

fun starts_ci :: "string \<Rightarrow> string \<Rightarrow> bool" where
  "starts_ci [] s = True"
| "starts_ci (p # ps) [] = False"
| "starts_ci (p # ps) (c # cs) = (to_upper p = to_upper c \<and> starts_ci ps cs)"

text \<open>\<^verbatim>\<open>re.test(s)\<close> for an unanchored pattern: some position of \<open>s\<close> matches.\<close>

fun test_anywhere :: "(string \<Rightarrow> bool) \<Rightarrow> string \<Rightarrow> bool" where
  "test_anywhere m [] = m []"
| "test_anywhere m (c # cs) = (m (c # cs) \<or> test_anywhere m cs)"

text \<open>\<^verbatim>\<open>/<\/?script/i\<close>: a \<open><\<close>, an optional \<open>/\<close>, then \<open>script\<close>.\<close>

fun script_at :: "string \<Rightarrow> bool" where
  "script_at [] = False"
| "script_at (c # cs) =
     (c = CHR ''<'' \<and>
      ((case cs of d # ds \<Rightarrow> d = CHR ''/'' \<and> starts_ci ''script'' ds | [] \<Rightarrow> False)
       \<or> starts_ci ''script'' cs))"

definition script_test :: "string \<Rightarrow> bool" where
  "script_test s = test_anywhere script_at s"

text \<open>\<^verbatim>\<open>/CORS|Network|Failed to fetch/i\<close>.\<close>

definition network_test :: "string \<Rightarrow> bool" where
  "network_test s =
     test_anywhere (\<lambda>t. starts_ci ''CORS'' t \<or> starts_ci ''Network'' t
                        \<or> starts_ci ''Failed to fetch'' t) s"

text \<open>\<^verbatim>\<open>s.replace(/\n/g, '<br>')\<close>.\<close>

definition replace_newlines :: "string \<Rightarrow> string" where
  "replace_newlines s = concat (map (\<lambda>c. if c = CHR 0x0A then ''<br>'' else [c]) s)"

text \<open>
  Decimal text of an integral number of moderate size (\<^verbatim>\<open>Date.now()\<close>,
  \<^verbatim>\<open>res.status\<close>, array indices), as string concatenation produces it.
\<close>

fun decimal :: "nat \<Rightarrow> string" where
  "decimal n = (if n < 10 then [char_of (48 + n)] else decimal (n div 10) @ [char_of (48 + n mod 10)])"

declare decimal.simps [simp del]

definition int_to_string :: "int \<Rightarrow> string" where
  "int_to_string i = (if i < 0 then CHR ''-'' # decimal (nat (- i)) else decimal (nat i))"

text \<open>\<^verbatim>\<open>s.trim()\<close>: white space and line terminators, at both ends.\<close>

definition is_space :: "char \<Rightarrow> bool" where
  "is_space c = ((of_char c :: nat) \<in> {9, 10, 11, 12, 13, 32, 160})"

definition trim :: "string \<Rightarrow> string" where
  "trim s = rev (dropWhile is_space (rev (dropWhile is_space s)))"

section \<open>The page\<close>

text \<open>
  A node of the page, with what the program can observe of it: a text node, or an
  element with its \<open>class\<close>, its \<open>id\<close> and its children (tag names and other
  attributes play no part in the program). The children of \<^verbatim>\<open>#messages\<close> are a list
  of such nodes; an answer shown through \<^verbatim>\<open>innerHTML\<close> has the nodes that the HTML
  parser built from the text as its children.
\<close>

datatype node = Text string | Elem string "string option" "node list"

fun el_class :: "node \<Rightarrow> string" where
  "el_class (Elem c d kids) = c"
| "el_class (Text t) = []"

fun el_id :: "node \<Rightarrow> string option" where
  "el_id (Elem c d kids) = d"
| "el_id (Text t) = None"

text \<open>
  \<^verbatim>\<open>el.textContent = t\<close>: the children become one text node with exactly the
  characters of \<open>t\<close>, none when \<open>t\<close> is empty. Nothing in \<open>t\<close> is read as markup.
\<close>

definition text_content :: "string \<Rightarrow> node list" where
  "text_content t = (if t = [] then [] else [Text t])"

text \<open>
  What the browser contributes and the repository does not contain:
  \<^verbatim>\<open>el.innerHTML = h\<close> makes the children of \<open>el\<close> the nodes that the HTML parser
  builds from \<open>h\<close>, and an error raised by the engine carries a message of the
  engine's choice. Both are parameters of the model.
\<close>

record browser =
  parse_html :: "string \<Rightarrow> node list"
  engine_message :: "js_error \<Rightarrow> string"

text \<open>
  The object \<open>payload\<close> of lines 150-157 and its messages; \<open>model\<close> is
  \<open>undefined\<close> (\<open>None\<close>) when the page has no \<^verbatim>\<open>#modelSelect\<close>.
\<close>

record message =
  role :: string
  content :: string

record payload =
  model :: "string option"
  messages :: "message list"
  temperature :: jsnumber

text \<open>The arguments of \<^verbatim>\<open>fetch\<close>; the body is the JSON text of the payload.\<close>

record http_request =
  req_url :: string
  req_method :: string
  req_headers :: "(string \<times> string) list"
  req_body :: string

text \<open>
  One send that waits for its response: the request, and the \<open>thinkingId\<close> that the
  waiting call holds.
\<close>

record exchange =
  ex_thinkingId :: string
  ex_request :: http_request

text \<open>
  The state the program reads and writes: the global \<^verbatim>\<open>window.OPENAI_KEY\<close>, the
  \<^verbatim>\<open>value\<close> of each optional form element (\<open>None\<close> when
  \<^verbatim>\<open>document.getElementById\<close> found no element; for \<^verbatim>\<open>#temperature\<close> the number
  that \<^verbatim>\<open>parseFloat\<close> reads from the value), the children of \<^verbatim>\<open>#messages\<close>,
  the \<^verbatim>\<open>alert\<close>s shown, and the exchanges whose request has not
  settled yet.
\<close>

record world =
  OPENAI_KEY :: "string option"
  apiKeyInput :: "string option"
  promptEl :: "string option"
  modelSelect :: "string option"
  tempEl :: "jsnumber option"
  systemPromptEl :: "string option"
  messagesEl :: "node list option"
  alerts :: "string list"
  in_flight :: "exchange list"

definition BASE :: string where
  "BASE = ''http://116.72.105.227:1234/v1''"

text \<open>\<^verbatim>\<open>appendMessage(text, who = 'bot', rawHtml = false)\<close>, lines 36-48.\<close>

definition appendMessage :: "browser \<Rightarrow> string \<Rightarrow> string \<Rightarrow> bool \<Rightarrow> node list option \<Rightarrow> node list option" where
  "appendMessage B text who rawHtml msgs =
     (case msgs of
        None \<Rightarrow> None
      | Some ns \<Rightarrow>
          Some (ns @ [Elem (''msg '' @ (if who = ''user'' then ''user'' else ''bot'')) None
                        (if rawHtml then parse_html B text else text_content text)]))"

text \<open>\<^verbatim>\<open>getApiKey()\<close>, lines 56-62.\<close>

definition getApiKey :: "string option \<Rightarrow> string option \<Rightarrow> string option" where
  "getApiKey globalKey apiKeyValue =
     (if (case globalKey of None \<Rightarrow> False | Some g \<Rightarrow> g \<noteq> [] \<and> trim g \<noteq> [])
      then map_option trim globalKey
      else if (case apiKeyValue of None \<Rightarrow> False | Some v \<Rightarrow> v \<noteq> [] \<and> trim v \<noteq> [])
      then map_option trim apiKeyValue
      else None)"

section \<open>Model catalog, lines 90-107 of \<^verbatim>\<open>fetchModels\<close>\<close>

text \<open>\<^verbatim>\<open>m.id || m.model || m.name || String(m)\<close>.\<close>

definition catalog_entry_array :: "json \<Rightarrow> js_error + jsval" where
  "catalog_entry_array m =
     js_or (js_or (js_or (get (Some m) ''id'') (get (Some m) ''model'')) (get (Some m) ''name''))
           (case ToString (Some m) of Inl e \<Rightarrow> Inl e | Inr s \<Rightarrow> Inr (Some (JStr s)))"

text \<open>\<^verbatim>\<open>m.id || m.name || m.model || JSON.stringify(m)\<close>.\<close>

definition catalog_entry :: "json \<Rightarrow> js_error + jsval" where
  "catalog_entry m =
     js_or (js_or (js_or (get (Some m) ''id'') (get (Some m) ''name'')) (get (Some m) ''model''))
           (Inr (Some (JStr (JSON_stringify m))))"

fun elements :: "jsval \<Rightarrow> json list" where
  "elements (Some (JArr xs)) = xs"
| "elements _ = []"

text \<open>\<^verbatim>\<open>Object.keys(v)\<close>: own enumerable property names.\<close>

fun object_keys :: "jsval \<Rightarrow> js_error + string list" where
  "object_keys None = Inl TypeError"
| "object_keys (Some JNull) = Inl TypeError"
| "object_keys (Some (JObj kvs)) = Inr (map fst kvs)"
| "object_keys (Some (JArr xs)) = Inr (map decimal [0 ..< length xs])"
| "object_keys (Some (JStr s)) = Inr (map decimal [0 ..< length s])"
| "object_keys (Some _) = Inr []"

definition fallback_models :: "jsval list" where
  "fallback_models = [Some (JStr ''gpt-4o-mini''), Some (JStr ''gpt-4o''), Some (JStr ''gpt-3.5-turbo'')]"

text \<open>The list found in the response, before the emptiness check (lines 94-101).\<close>

definition catalog_models :: "json \<Rightarrow> js_error + jsval list" where
  "catalog_models j =
     (if isArray (Some j) then array_map catalog_entry_array (elements (Some j))
      else case get (Some j) ''data'' of Inl e \<Rightarrow> Inl e | Inr d \<Rightarrow>
        if isArray d then array_map catalog_entry (elements d)
        else case get (Some j) ''models'' of Inl e \<Rightarrow> Inl e | Inr ms \<Rightarrow>
          if isArray ms then array_map catalog_entry (elements ms)
          else case object_keys (Some j) of Inl e \<Rightarrow> Inl e
               | Inr ks \<Rightarrow> Inr (map (\<lambda>k. Some (JStr k)) (take 20 ks)))"

text \<open>
  Lines 94-107. The second component tells whether the notice
  \<^verbatim>\<open>appendMessage('No models found in response; using fallback list.', 'bot')\<close> is
  issued.
\<close>

definition normalize_catalog :: "json \<Rightarrow> js_error + (jsval list \<times> bool)" where
  "normalize_catalog j =
     (case catalog_models j of
        Inl e \<Rightarrow> Inl e
      | Inr models \<Rightarrow> if length models = 0 then Inr (fallback_models, True) else Inr (models, False))"

section \<open>Chat response, lines 178-208 of \<^verbatim>\<open>sendChat\<close>\<close>

text \<open>
  \<^verbatim>\<open>(c.message && c.message.content) || c.text || (c.delta && c.delta.content) || null\<close>
\<close>

definition choice_text :: "jsval \<Rightarrow> js_error + jsval" where
  "choice_text c =
     js_or (js_or (js_or (js_and (get c ''message'') (dot (get c ''message'') ''content''))
                         (get c ''text''))
                  (js_and (get c ''delta'') (dot (get c ''delta'') ''content'')))
           (Inr (Some JNull))"

text \<open>\<^verbatim>\<open>j.choices && Array.isArray(j.choices) && j.choices[0]\<close>\<close>

definition choices_guard :: "json \<Rightarrow> js_error + jsval" where
  "choices_guard j =
     js_and (js_and (get (Some j) ''choices'')
                    (case get (Some j) ''choices'' of Inl e \<Rightarrow> Inl e
                     | Inr v \<Rightarrow> Inr (Some (JBool (isArray v)))))
            (case get (Some j) ''choices'' of Inl e \<Rightarrow> Inl e | Inr v \<Rightarrow> index0 v)"

text \<open>The right-hand side of line 184, for a truthy \<^verbatim>\<open>j.output\<close>.\<close>

definition output_text :: "jsval \<Rightarrow> js_error + jsval" where
  "output_text out =
     (case out of
        None \<Rightarrow> Inr None
      | Some (JStr s) \<Rightarrow> Inr (Some (JStr s))
      | Some (JArr xs) \<Rightarrow>
          (case array_map (\<lambda>x. js_or (get (Some x) ''content'')
                                      (Inr (Some (JStr (JSON_stringify x))))) xs of
             Inl e \<Rightarrow> Inl e
           | Inr ys \<Rightarrow> (case array_join [CHR 0x0A] ys of
                          Inl e \<Rightarrow> Inl e
                        | Inr s \<Rightarrow> Inr (Some (JStr s))))
      | Some v \<Rightarrow> Inr (Some (JStr (JSON_stringify v))))"

text \<open>Lines 178-189: the value of \<open>assistantText\<close>, or the exception raised.\<close>

definition extractText :: "json \<Rightarrow> js_error + jsval" where
  "extractText j =
     (case choices_guard j of
        Inl e \<Rightarrow> Inl e
      | Inr g \<Rightarrow>
          if truthy_u g then
            (case dot (Inr (Some j)) ''choices'' of Inl e \<Rightarrow> Inl e
             | Inr ch \<Rightarrow> (case index0 ch of Inl e \<Rightarrow> Inl e | Inr c \<Rightarrow> choice_text c))
          else
            (case get (Some j) ''output'' of
               Inl e \<Rightarrow> Inl e
             | Inr out \<Rightarrow>
                 if truthy_u out then output_text out
                 else
                   (case get (Some j) ''result'' of
                      Inl e \<Rightarrow> Inl e
                    | Inr r \<Rightarrow>
                        if truthy_u r then Inr r
                        else Inr (Some (JStr (JSON_stringify_pretty j))))))"

text \<open>
  Lines 195-208: showing \<open>assistantText\<close>. \<^verbatim>\<open>RegExp.prototype.test\<close> converts its
  argument to a string first; \<^verbatim>\<open>.replace\<close> exists on strings only, so on any other
  truthy value the call raises a TypeError; \<^verbatim>\<open>messagesEl.appendChild\<close> raises when
  \<^verbatim>\<open>#messages\<close> is missing.
\<close>

definition show_assistant :: "browser \<Rightarrow> jsval \<Rightarrow> node list option \<Rightarrow> js_error + node list option" where
  "show_assistant B assistantText msgs =
     (case (if truthy_u assistantText
            then (case ToString assistantText of Inl e \<Rightarrow> Inl e | Inr s \<Rightarrow> Inr (script_test s))
            else Inr False) of
        Inl e \<Rightarrow> Inl e
      | Inr True \<Rightarrow>
          (case ToString assistantText of Inl e \<Rightarrow> Inl e
           | Inr s \<Rightarrow> Inr (appendMessage B s ''bot'' False msgs))
      | Inr False \<Rightarrow>
          (case (if truthy_u assistantText then assistantText else Some (JStr [])) of
             Some (JStr s) \<Rightarrow>
               (case msgs of
                  None \<Rightarrow> Inl TypeError
                | Some ns \<Rightarrow>
                    Inr (Some (ns @ [Elem ''msg bot'' None (parse_html B (replace_newlines s))])))
           | _ \<Rightarrow> Inl TypeError))"

section \<open>\<^verbatim>\<open>sendChat\<close>\<close>

text \<open>Lines 133-135: the generation settings, read from the page at every send.\<close>

record generation_config =
  cfg_model :: "string option"
  cfg_temperature :: jsnumber
  cfg_systemPrompt :: string

definition read_config :: "world \<Rightarrow> generation_config" where
  "read_config w =
     \<lparr> cfg_model = modelSelect w,
       cfg_temperature = (case tempEl w of Some n \<Rightarrow> n | None \<Rightarrow> Num ''0.7''),
       cfg_systemPrompt = (case systemPromptEl w of Some v \<Rightarrow> (if v \<noteq> [] then v else []) | None \<Rightarrow> []) \<rparr>"

text \<open>Lines 150-157: the object \<open>payload\<close>.\<close>

definition build_payload :: "generation_config \<Rightarrow> string \<Rightarrow> payload" where
  "build_payload cfg userText =
     \<lparr> model = cfg_model cfg,
       messages = (if cfg_systemPrompt cfg \<noteq> []
                   then [\<lparr> role = ''system'', content = cfg_systemPrompt cfg \<rparr>] else [])
                  @ [\<lparr> role = ''user'', content = userText \<rparr>],
       temperature = cfg_temperature cfg \<rparr>"

text \<open>
  The payload as \<^verbatim>\<open>JSON.stringify\<close> sees it: an object with the properties in the
  order of the literal, a property whose value is \<open>undefined\<close> left out.
\<close>

definition message_json :: "message \<Rightarrow> json" where
  "message_json m = JObj [(''role'', JStr (role m)), (''content'', JStr (content m))]"

definition payload_json :: "payload \<Rightarrow> json" where
  "payload_json p =
     JObj ((case model p of Some m \<Rightarrow> [(''model'', JStr m)] | None \<Rightarrow> [])
           @ [(''messages'', JArr (map message_json (messages p))),
              (''temperature'', JNum (temperature p))])"

text \<open>Lines 159-167: the request handed to \<^verbatim>\<open>fetch\<close>.\<close>

definition chat_request :: "string \<Rightarrow> payload \<Rightarrow> http_request" where
  "chat_request key p =
     \<lparr> req_url = BASE @ ''/chat/completions'',
       req_method = ''POST'',
       req_headers = [(''Authorization'', key), (''Content-Type'', ''application/json''),
                      (''Accept'', ''application/json'')],
       req_body = JSON_stringify (payload_json p) \<rparr>"

text \<open>Line 141: \<^verbatim>\<open>'thinking-' + Date.now()\<close>, for the clock reading \<open>now\<close>.\<close>

definition thinkingId :: "int \<Rightarrow> string" where
  "thinkingId now = ''thinking-'' @ int_to_string now"

text \<open>
  Line 145. The source text ends in the character U+2026, which is outside the code
  units of this model; it is written as three dots.
\<close>

definition thinking_text :: string where
  "thinking_text = ''Thinking...''"

text \<open>
  Lines 121-167: \<^verbatim>\<open>sendChat\<close> from the click up to the point where it waits for
  \<^verbatim>\<open>fetch\<close>; \<open>now\<close> is what \<^verbatim>\<open>Date.now()\<close> returns. The result is the state
  afterwards and the exception that left the call, if any: when \<^verbatim>\<open>#messages\<close> is
  missing, line 146 raises outside the \<^verbatim>\<open>try\<close> and the call ends there.
\<close>

definition missing_prompt_alert :: string where
  "missing_prompt_alert = ''No prompt textarea found (#prompt).''"

definition missing_key_alert :: string where
  "missing_key_alert = ''API key not found. Provide window.OPENAI_KEY in HTML or an input#apiKey.''"

definition sendChat_start :: "browser \<Rightarrow> int \<Rightarrow> world \<Rightarrow> world \<times> js_error option" where
  "sendChat_start B now w =
     (case promptEl w of
        None \<Rightarrow> (w\<lparr> alerts := alerts w @ [missing_prompt_alert] \<rparr>, None)
      | Some v \<Rightarrow>
          let userText = trim v in
          if userText = [] then (w, None)
          else
            (case getApiKey (OPENAI_KEY w) (apiKeyInput w) of
               None \<Rightarrow> (w\<lparr> alerts := alerts w @ [missing_key_alert] \<rparr>, None)
             | Some key \<Rightarrow>
                 let cfg = read_config w;
                     w1 = w\<lparr> messagesEl := appendMessage B userText ''user'' False (messagesEl w),
                              promptEl := Some [] \<rparr>
                 in (case messagesEl w1 of
                       None \<Rightarrow> (w1, Some TypeError)
                     | Some ns \<Rightarrow>
                         (w1\<lparr> messagesEl :=
                                 Some (ns @ [Elem ''msg bot'' (Some (thinkingId now))
                                               (text_content thinking_text)]),
                               in_flight := in_flight w1 @
                                 [\<lparr> ex_thinkingId = thinkingId now,
                                    ex_request = chat_request key (build_payload cfg userText) \<rparr>] \<rparr>,
                          None))))"

text \<open>What \<^verbatim>\<open>await fetch(...)\<close> comes back with.\<close>

datatype fetch_outcome =
    Rejected string                      \<comment> \<open>the promise rejected, with this message\<close>
  | Responded nat string "json option"   \<comment> \<open>status, body text, body parsed as JSON if it is JSON\<close>

text \<open>
  \<^verbatim>\<open>document.getElementById(id)\<close>: the first element with this id in document order,
  at any depth, so also an element that the parser built from an earlier answer. The
  page outside \<^verbatim>\<open>#messages\<close> has the elements that the header of \<^verbatim>\<open>main.js\<close> lists,
  none with an id of the form \<^verbatim>\<open>thinking-N\<close>, so the search is over the descendants of
  \<^verbatim>\<open>#messages\<close>.
\<close>

fun find_in_node :: "string \<Rightarrow> node \<Rightarrow> node option"
  and find_by_id :: "string \<Rightarrow> node list \<Rightarrow> node option" where
  "find_in_node i (Text t) = None"
| "find_in_node i (Elem c d kids) = (if d = Some i then Some (Elem c d kids) else find_by_id i kids)"
| "find_by_id i [] = None"
| "find_by_id i (n # ns) = (case find_in_node i n of Some m \<Rightarrow> Some m | None \<Rightarrow> find_by_id i ns)"

text \<open>\<^verbatim>\<open>t.remove()\<close> for the element \<open>t\<close> that \<^verbatim>\<open>getElementById\<close> returns.\<close>

fun remove_in_node :: "string \<Rightarrow> node \<Rightarrow> node"
  and remove_by_id :: "string \<Rightarrow> node list \<Rightarrow> node list" where
  "remove_in_node i (Text t) = Text t"
| "remove_in_node i (Elem c d kids) = Elem c d (remove_by_id i kids)"
| "remove_by_id i [] = []"
| "remove_by_id i (n # ns) =
     (if el_id n = Some i then ns
      else (case find_in_node i n of
              Some m \<Rightarrow> remove_in_node i n # ns
            | None \<Rightarrow> n # remove_by_id i ns))"

text \<open>\<^verbatim>\<open>t.textContent = s\<close> for the element \<open>t\<close> that \<^verbatim>\<open>getElementById\<close> returns.\<close>

fun set_text_in_node :: "string \<Rightarrow> string \<Rightarrow> node \<Rightarrow> node"
  and set_text_by_id :: "string \<Rightarrow> string \<Rightarrow> node list \<Rightarrow> node list" where
  "set_text_in_node i s (Text t) = Text t"
| "set_text_in_node i s (Elem c d kids) =
     (if d = Some i then Elem c d (text_content s) else Elem c d (set_text_by_id i s kids))"
| "set_text_by_id i s [] = []"
| "set_text_by_id i s (n # ns) =
     (case find_in_node i n of
        Some m \<Rightarrow> set_text_in_node i s n # ns
      | None \<Rightarrow> n # set_text_by_id i s ns)"

text \<open>
  Lines 169-208, the rest of the \<^verbatim>\<open>try\<close> block: the messages afterwards, and the
  exception if one was thrown (changes made before the throw stay).
\<close>

definition try_block :: "browser \<Rightarrow> string \<Rightarrow> fetch_outcome \<Rightarrow> node list option
    \<Rightarrow> node list option \<times> js_error option" where
  "try_block B tid outcome msgs =
     (case outcome of
        Rejected m \<Rightarrow> (msgs, Some (FetchRejected m))
      | Responded status txt parsed \<Rightarrow>
          if \<not> (200 \<le> status \<and> status \<le> 299)
          then (msgs, Some (Error (''Chat failed: '' @ decimal status @ '' '' @ txt)))
          else (case parsed of
                  None \<Rightarrow> (msgs, Some SyntaxError)
                | Some j \<Rightarrow>
                    (case extractText j of
                       Inl e \<Rightarrow> (msgs, Some e)
                     | Inr assistantText \<Rightarrow>
                         let msgs1 = map_option (remove_by_id tid) msgs in
                         (case show_assistant B assistantText msgs1 of
                            Inl e \<Rightarrow> (msgs1, Some e)
                          | Inr msgs2 \<Rightarrow> (msgs2, None)))))"

text \<open>\<^verbatim>\<open>err.message\<close>, and \<^verbatim>\<open>String(err)\<close> for an error with an empty message.\<close>

definition error_message :: "browser \<Rightarrow> js_error \<Rightarrow> string" where
  "error_message B e =
     (case e of Error m \<Rightarrow> m | FetchRejected m \<Rightarrow> m | _ \<Rightarrow> engine_message B e)"

definition error_name :: "js_error \<Rightarrow> string" where
  "error_name e = (case e of Error m \<Rightarrow> ''Error'' | SyntaxError \<Rightarrow> ''SyntaxError'' | _ \<Rightarrow> ''TypeError'')"

definition network_hint :: string where
  "network_hint = ''Network/CORS error detected. Ensure http://116.72.105.227:1234 allows CORS from this origin and that the host is reachable.''"

text \<open>Lines 209-220, the \<^verbatim>\<open>catch\<close> block.\<close>

definition catch_block :: "browser \<Rightarrow> string \<Rightarrow> js_error \<Rightarrow> node list option \<Rightarrow> node list option" where
  "catch_block B tid err msgs =
     (let detail = ''Error: '' @ (if error_message B err \<noteq> [] then error_message B err else error_name err);
          msgs1 = (case msgs of
                     None \<Rightarrow> appendMessage B detail ''bot'' False msgs
                   | Some ns \<Rightarrow>
                       (case find_by_id tid ns of
                          Some t \<Rightarrow> Some (set_text_by_id tid detail ns)
                        | None \<Rightarrow> appendMessage B detail ''bot'' False msgs))
      in if error_message B err \<noteq> [] \<and> network_test (error_message B err)
         then appendMessage B network_hint ''bot'' False msgs1
         else msgs1)"

text \<open>
  \<^verbatim>\<open>sendChat\<close> after \<^verbatim>\<open>fetch\<close> has settled for the exchange \<open>x\<close>: the exchange is no
  longer in flight, and the page shows the answer or the error.
\<close>

definition sendChat_settle :: "browser \<Rightarrow> exchange \<Rightarrow> fetch_outcome \<Rightarrow> world \<Rightarrow> world" where
  "sendChat_settle B x outcome w =
     (let w1 = w\<lparr> in_flight := remove1 x (in_flight w) \<rparr> in
      case try_block B (ex_thinkingId x) outcome (messagesEl w1) of
        (msgs, None) \<Rightarrow> w1\<lparr> messagesEl := msgs \<rparr>
      | (msgs, Some err) \<Rightarrow> w1\<lparr> messagesEl := catch_block B (ex_thinkingId x) err msgs \<rparr>)"

section \<open>A session\<close>

text \<open>
  The page runs on one event loop: the user fills the prompt, a send is requested
  (\<^verbatim>\<open>sendChat\<close> runs up to its \<^verbatim>\<open>await\<close>), and later the request of an exchange in
  flight settles (\<^verbatim>\<open>sendChat\<close> resumes for that exchange). An exception that leaves
  \<^verbatim>\<open>sendChat\<close> is an unhandled rejection; the page goes on.
\<close>

datatype event =
    TypePrompt string                    \<comment> \<open>the user sets the text of \<^verbatim>\<open>#prompt\<close>\<close>
  | RequestSend int                      \<comment> \<open>click or Enter; the clock reads this value\<close>
  | FetchSettled exchange fetch_outcome  \<comment> \<open>the request of this exchange settles\<close>

definition step :: "browser \<Rightarrow> event \<Rightarrow> world \<Rightarrow> world" where
  "step B ev w =
     (case ev of
        TypePrompt t \<Rightarrow> w\<lparr> promptEl := map_option (\<lambda>_. t) (promptEl w) \<rparr>
      | RequestSend now \<Rightarrow> fst (sendChat_start B now w)
      | FetchSettled x outcome \<Rightarrow>
          if x \<in> set (in_flight w) then sendChat_settle B x outcome w else w)"

fun run :: "browser \<Rightarrow> event list \<Rightarrow> world \<Rightarrow> world" where
  "run B [] w = w"
| "run B (ev # evs) w = run B evs (step B ev w)"

text \<open>The children of \<^verbatim>\<open>#messages\<close>, none when the element is missing.\<close>

definition children :: "world \<Rightarrow> node list" where
  "children w = (case messagesEl w of None \<Rightarrow> [] | Some ns \<Rightarrow> ns)"

section \<open>Vocabulary of the claims\<close>

text \<open>A page with every element present and a key configured in \<^verbatim>\<open>window.OPENAI_KEY\<close>.\<close>

definition example_page :: world where
  "example_page =
     \<lparr> OPENAI_KEY = Some ''sk-test'', apiKeyInput = None, promptEl = Some [],
       modelSelect = Some ''m1'', tempEl = Some (Num ''0.7''), systemPromptEl = Some [],
       messagesEl = Some [], alerts = [], in_flight = [] \<rparr>"

text \<open>
  A browser for the examples. Its parser is the HTML parser on text without markup
  (no \<open><\<close>, no \<open>&\<close>), which it turns into one text node; no example below hands
  it any text. Its engine gives every error of its own the same message.
\<close>

definition example_engine :: "js_error \<Rightarrow> string" where
  "example_engine e = ''Cannot read properties of null''"

definition example_browser :: browser where
  "example_browser = \<lparr> parse_html = text_content, engine_message = example_engine \<rparr>"

text \<open>A candidate key is absent, or blank after trimming.\<close>

definition candidate_blank :: "string option \<Rightarrow> bool" where
  "candidate_blank c = (case c of None \<Rightarrow> True | Some s \<Rightarrow> trim s = [])"

text \<open>A transport exception, or a status outside 200-299.\<close>

fun failed :: "fetch_outcome \<Rightarrow> bool" where
  "failed (Rejected m) = True"
| "failed (Responded status txt parsed) = (\<not> (200 \<le> status \<and> status \<le> 299))"

text \<open>The error detail of a failed exchange, with the body the provider sent.\<close>

fun failure_detail :: "fetch_outcome \<Rightarrow> string" where
  "failure_detail (Rejected m) = (if m \<noteq> [] then m else ''TypeError'')"
| "failure_detail (Responded status txt parsed) = ''Chat failed: '' @ decimal status @ '' '' @ txt"

text \<open>
  The example page while a first exchange is still in flight and the user has typed a
  second message.
\<close>

definition busy_page :: world where
  "busy_page =
     example_page\<lparr> promptEl := Some ''second'',
                    messagesEl := Some [Elem ''msg user'' None [Text ''first''],
                                        Elem ''msg bot'' (Some ''thinking-1700000000000'')
                                          [Text ''Thinking...'']],
                    in_flight := [\<lparr> ex_thinkingId = ''thinking-1700000000000'',
                                    ex_request = chat_request ''sk-test''
                                      (build_payload (read_config example_page) ''first'') \<rparr>] \<rparr>"


text \<open>A bot message shown as plain text, as \<^verbatim>\<open>appendMessage(t, 'bot')\<close> builds it.\<close>

definition bot_text :: "string \<Rightarrow> node" where
  "bot_text t = Elem ''msg bot'' None (text_content t)"

text \<open>
  A field of a value that is not \<open>null\<close>: absent (\<open>undefined\<close>) unless the value is
  an object that has it.
\<close>

fun field :: "json \<Rightarrow> string \<Rightarrow> jsval" where
  "field (JObj kvs) k = map_of kvs k"
| "field _ k = None"

text \<open>The field \<open>b\<close> of the field \<open>a\<close>, when \<open>a\<close> is there and truthy.\<close>

definition nested :: "json \<Rightarrow> string \<Rightarrow> string \<Rightarrow> jsval" where
  "nested c a b = (case field c a of Some m \<Rightarrow> if truthy m then field m b else None | None \<Rightarrow> None)"

text \<open>The first truthy candidate, else \<open>null\<close>.\<close>

fun first_truthy :: "jsval list \<Rightarrow> jsval" where
  "first_truthy [] = Some JNull"
| "first_truthy (v # vs) = (if truthy_u v then v else first_truthy vs)"

text \<open>
  Text extraction in the words of the specification (4.4), branch by branch, with
  the conditions the program tests: element 0 of \<open>choices\<close> truthy, \<open>output\<close> truthy,
  \<open>result\<close> truthy.
\<close>

definition extract_rest :: "json \<Rightarrow> js_error + jsval" where
  "extract_rest j =
     (if truthy_u (field j ''output'') then output_text (field j ''output'')
      else if truthy_u (field j ''result'') then Inr (field j ''result'')
      else Inr (Some (JStr (JSON_stringify_pretty j))))"

definition extract_spec :: "json \<Rightarrow> js_error + jsval" where
  "extract_spec j =
     (case field j ''choices'' of
        Some (JArr (c # cs)) \<Rightarrow>
          if truthy c
          then Inr (first_truthy [nested c ''message'' ''content'', field c ''text'',
                                  nested c ''delta'' ''content''])
          else extract_rest j
      | _ \<Rightarrow> extract_rest j)"

text \<open>
  The \<open>output\<close> field, when it is a sequence, can be joined: no element is \<open>null\<close>,
  and a truthy \<open>content\<close> of an element converts to a string.
\<close>

definition output_joinable :: "json \<Rightarrow> bool" where
  "output_joinable j =
     (case field j ''output'' of
        Some (JArr xs) \<Rightarrow>
          (\<forall>x \<in> set xs. x \<noteq> JNull \<and>
             (case field x ''content'' of Some c \<Rightarrow> truthy c \<longrightarrow> \<not> toString_raises c | None \<Rightarrow> True))
      | _ \<Rightarrow> True)"

text \<open>Element 0 of \<open>choices\<close>, when \<open>choices\<close> is a sequence and the element is truthy.\<close>

definition first_choice :: "json \<Rightarrow> jsval" where
  "first_choice j =
     (case field j ''choices'' of
        Some (JArr (c # cs)) \<Rightarrow> if truthy c then Some c else None
      | _ \<Rightarrow> None)"

text \<open>
  A chat response from which text can be extracted: it is not \<open>null\<close>, and either
  the \<open>choices\<close> branch answers or the \<open>output\<close> field can be joined.
\<close>

definition extract_readable :: "json \<Rightarrow> bool" where
  "extract_readable j = (j \<noteq> JNull \<and> (first_choice j \<noteq> None \<or> output_joinable j))"

text \<open>The sequence of the catalog response that is mapped, if the response has one.\<close>

definition catalog_source :: "json \<Rightarrow> json list" where
  "catalog_source j =
     (if isArray (Some j) then elements (Some j)
      else if isArray (field j ''data'') then elements (field j ''data'')
      else if isArray (field j ''models'') then elements (field j ''models'')
      else [])"

text \<open>
  A catalog response the program can read: it is not \<open>null\<close>, the mapped sequence
  has no \<open>null\<close> element, and an element of a top-level sequence that has no truthy
  \<open>id\<close>, \<open>model\<close> or \<open>name\<close> converts to a string.
\<close>

definition catalog_readable :: "json \<Rightarrow> bool" where
  "catalog_readable j =
     (j \<noteq> JNull \<and> (\<forall>x \<in> set (catalog_source j). x \<noteq> JNull)
      \<and> (isArray (Some j) \<longrightarrow>
           (\<forall>x \<in> set (elements (Some j)).
              truthy_u (field x ''id'') \<or> truthy_u (field x ''model'') \<or> truthy_u (field x ''name'')
              \<or> \<not> toString_raises x)))"

text \<open>An element of \<open>data\<close>: its \<open>id\<close>, else \<open>name\<close>, else \<open>model\<close>, else its JSON text.\<close>

definition entry_spec :: "json \<Rightarrow> jsval" where
  "entry_spec x =
     (if truthy_u (field x ''id'') then field x ''id''
      else if truthy_u (field x ''name'') then field x ''name''
      else if truthy_u (field x ''model'') then field x ''model''
      else Some (JStr (JSON_stringify x)))"

text \<open>
  The text contains the literal \<open>p\<close> at some position, letters compared without case.
\<close>

definition contains_ci :: "string \<Rightarrow> string \<Rightarrow> bool" where
  "contains_ci p s = (\<exists>i \<le> length s. map to_upper (take (length p) (drop i s)) = map to_upper p)"

section \<open>Facts about the model\<close>

subsection \<open>Keys and sends\<close>

lemma trim_Nil: "trim [] = []"
  by (simp add: trim_def)

lemma getApiKey_None_iff:
  "getApiKey g a = None \<longleftrightarrow> candidate_blank g \<and> candidate_blank a"
  by (cases g; cases a) (auto simp: getApiKey_def candidate_blank_def trim_Nil)

lemma appendMessage_text:
  "appendMessage B t who False (Some ns) =
     Some (ns @ [Elem (''msg '' @ (if who = ''user'' then ''user'' else ''bot'')) None (text_content t)])"
  by (simp add: appendMessage_def)

text \<open>What a send does when nothing stops it.\<close>

lemma sendChat_start_ok:
  assumes "promptEl w = Some v" and "trim v \<noteq> []"
    and "getApiKey (OPENAI_KEY w) (apiKeyInput w) = Some key"
    and "messagesEl w = Some els"
  shows "sendChat_start B now w =
     (w\<lparr> messagesEl := Some (els @ [Elem ''msg user'' None (text_content (trim v)),
                                     Elem ''msg bot'' (Some (thinkingId now)) (text_content thinking_text)]),
         promptEl := Some [],
         in_flight := in_flight w @ [\<lparr> ex_thinkingId = thinkingId now,
                            ex_request = chat_request key (build_payload (read_config w) (trim v)) \<rparr>] \<rparr>, None)"
  using assms by (simp add: sendChat_start_def Let_def appendMessage_def)

lemma trim_first: "trim ''first'' = ''first''"
  by code_simp

lemma trim_second: "trim ''second'' = ''second''"
  by code_simp

lemma key_example: "getApiKey (Some ''sk-test'') None = Some ''sk-test''"
  by code_simp

subsection \<open>Decimal text is injective\<close>

lemma decimal_nonempty: "decimal n \<noteq> []"
  by (subst decimal.simps) simp

lemma digit_char_inj:
  assumes "a < 10" "b < 10" "char_of (48 + a) = (char_of (48 + b) :: char)"
  shows "a = (b::nat)"
proof -
  have "(of_char (char_of (48 + a) :: char) :: nat) = of_char (char_of (48 + b) :: char)"
    using assms(3) by simp
  then have "(48 + a) mod 256 = (48 + b) mod 256"
    by (simp only: of_char_of)
  with assms(1,2) show ?thesis by simp
qed

lemma decimal_digits:
  "c \<in> set (decimal n) \<Longrightarrow> 48 \<le> (of_char c :: nat) \<and> (of_char c :: nat) \<le> 57"
proof (induction n rule: decimal.induct)
  case (1 n)
  show ?case
  proof (cases "n < 10")
    case True
    with "1.prems" have "c = char_of (48 + n)" by (subst (asm) decimal.simps) simp
    then have "(of_char c :: nat) = (48 + n) mod 256" by (simp only: of_char_of)
    with True show ?thesis by simp
  next
    case False
    with "1.prems" have "c \<in> set (decimal (n div 10)) \<or> c = char_of (48 + n mod 10)"
      by (subst (asm) decimal.simps) auto
    then show ?thesis
    proof
      assume "c \<in> set (decimal (n div 10))"
      with "1.IH" False show ?thesis by simp
    next
      assume "c = char_of (48 + n mod 10)"
      then have "(of_char c :: nat) = (48 + n mod 10) mod 256" by (simp only: of_char_of)
      moreover have "n mod 10 < 10" by simp
      ultimately show ?thesis by simp
    qed
  qed
qed

lemma decimal_inj: "decimal n = decimal m \<Longrightarrow> n = m"
proof (induction n arbitrary: m rule: decimal.induct)
  case (1 n)
  show ?case
  proof (cases "n < 10")
    case n: True
    show ?thesis
    proof (cases "m < 10")
      case True
      with n "1.prems" have "char_of (48 + n) = (char_of (48 + m) :: char)"
        by (subst (asm) decimal.simps, subst (asm) (2) decimal.simps) simp
      with n True show ?thesis by (rule digit_char_inj)
    next
      case False
      have "decimal m = decimal (m div 10) @ [char_of (48 + m mod 10)]"
        using False by (subst decimal.simps) simp
      moreover have "decimal n = [char_of (48 + n)]"
        using n by (subst decimal.simps) simp
      ultimately have "decimal (m div 10) = []" using "1.prems" by simp
      then show ?thesis using decimal_nonempty by blast
    qed
  next
    case n: False
    have dn: "decimal n = decimal (n div 10) @ [char_of (48 + n mod 10)]"
      using n by (subst decimal.simps) simp
    show ?thesis
    proof (cases "m < 10")
      case True
      then have "decimal m = [char_of (48 + m)]" by (subst decimal.simps) simp
      with dn "1.prems" have "decimal (n div 10) = []" by simp
      then show ?thesis using decimal_nonempty by blast
    next
      case False
      then have dm: "decimal m = decimal (m div 10) @ [char_of (48 + m mod 10)]"
        by (subst decimal.simps) simp
      from dn dm "1.prems" have e1: "decimal (n div 10) = decimal (m div 10)"
        and e2: "char_of (48 + n mod 10) = (char_of (48 + m mod 10) :: char)" by simp_all
      from "1.IH" [OF n e1] have q: "n div 10 = m div 10" .
      have r: "n mod 10 = m mod 10" by (rule digit_char_inj [OF _ _ e2]) simp_all
      have "n = 10 * (n div 10) + n mod 10" by simp
      also have "\<dots> = 10 * (m div 10) + m mod 10" using q r by simp
      also have "\<dots> = m" by simp
      finally show ?thesis .
    qed
  qed
qed

lemma decimal_no_minus: "hd (decimal n) \<noteq> CHR ''-''"
proof
  assume h: "hd (decimal n) = CHR ''-''"
  have "hd (decimal n) \<in> set (decimal n)" using decimal_nonempty by simp
  then have "48 \<le> (of_char (hd (decimal n)) :: nat)" using decimal_digits by blast
  with h show False by simp
qed

lemma int_to_string_inj: "int_to_string a = int_to_string b \<Longrightarrow> a = b"
proof -
  assume e: "int_to_string a = int_to_string b"
  consider "a < 0" "b < 0" | "a < 0" "\<not> b < 0" | "\<not> a < 0" "b < 0" | "\<not> a < 0" "\<not> b < 0"
    by blast
  then show ?thesis
  proof cases
    case 1
    with e have "decimal (nat (- a)) = decimal (nat (- b))" by (simp add: int_to_string_def)
    then have "nat (- a) = nat (- b)" by (rule decimal_inj)
    with 1 show ?thesis by simp
  next
    case 2
    with e have "CHR ''-'' # decimal (nat (- a)) = decimal (nat b)" by (simp add: int_to_string_def)
    then have "hd (decimal (nat b)) = CHR ''-''" by (metis list.sel(1))
    then show ?thesis using decimal_no_minus by blast
  next
    case 3
    with e have "CHR ''-'' # decimal (nat (- b)) = decimal (nat a)" by (simp add: int_to_string_def)
    then have "hd (decimal (nat a)) = CHR ''-''" by (metis list.sel(1))
    then show ?thesis using decimal_no_minus by blast
  next
    case 4
    with e have "decimal (nat a) = decimal (nat b)" by (simp add: int_to_string_def)
    then have "nat a = nat b" by (rule decimal_inj)
    with 4 show ?thesis by simp
  qed
qed

lemma thinkingId_inj: "thinkingId a = thinkingId b \<Longrightarrow> a = b"
  by (auto simp: thinkingId_def dest: int_to_string_inj)

subsection \<open>The \<^verbatim>\<open>catch\<close> block\<close>

lemma find_by_id_append: "find_by_id i xs = Some m \<Longrightarrow> find_by_id i (xs @ ys) = Some m"
  by (induction xs) (auto split: option.splits)

lemma find_by_id_append_None:
  "find_by_id i xs = None \<Longrightarrow> find_by_id i (xs @ ys) = find_by_id i ys"
  by (induction xs) (auto split: option.splits)

text \<open>
  After \<^verbatim>\<open>t.textContent = s\<close> the element found under the id is the same element, with
  the text as its only content.
\<close>

lemma find_set_text:
  "find_in_node i n = Some m \<Longrightarrow>
     find_in_node i (set_text_in_node i s n) = Some (Elem (el_class m) (Some i) (text_content s))"
  "find_by_id i ns = Some m \<Longrightarrow>
     find_by_id i (set_text_by_id i s ns) = Some (Elem (el_class m) (Some i) (text_content s))"
  by (induction i n and i ns rule: find_in_node_find_by_id.induct)
     (auto split: option.splits if_splits)

lemma catch_block_None: "catch_block B tid err None = None"
  by (simp add: catch_block_def appendMessage_def Let_def)

lemma catch_block_Some:
  assumes "d = ''Error: '' @ (if error_message B err \<noteq> [] then error_message B err else error_name err)"
  shows "catch_block B tid err (Some ns) =
     Some ((case find_by_id tid ns of
              Some t \<Rightarrow> set_text_by_id tid d ns
            | None \<Rightarrow> ns @ [bot_text d])
           @ (if error_message B err \<noteq> [] \<and> network_test (error_message B err)
              then [bot_text network_hint] else []))"
  unfolding assms
  by (simp add: catch_block_def Let_def appendMessage_text bot_text_def split: option.splits)

lemma try_block_failed:
  "failed outcome \<Longrightarrow>
   try_block B tid outcome msgs =
     (msgs, Some (case outcome of Rejected m \<Rightarrow> FetchRejected m
                  | Responded status txt parsed \<Rightarrow> Error (''Chat failed: '' @ decimal status @ '' '' @ txt)))"
  by (cases outcome) (simp_all add: try_block_def)

lemma failed_detail:
  assumes "failed outcome"
    and "err = (case outcome of Rejected m \<Rightarrow> FetchRejected m
                  | Responded status txt parsed \<Rightarrow> Error (''Chat failed: '' @ decimal status @ '' '' @ txt))"
  shows "error_message B err = (case outcome of Rejected m \<Rightarrow> m | Responded status txt parsed \<Rightarrow> ''Chat failed: '' @ decimal status @ '' '' @ txt)"
    and "(if error_message B err \<noteq> [] then error_message B err else error_name err) = failure_detail outcome"
  using assms by (cases outcome; simp add: error_message_def error_name_def)+

text \<open>
  A failed exchange is shown without the HTML parser: whatever the browser, the page
  afterwards is the same, so no text of the error is read as markup.
\<close>

lemma failure_ignores_parser:
  assumes "failed outcome"
  shows "sendChat_settle B x outcome w = sendChat_settle B' x outcome w"
proof -
  define err where "err = (case outcome of Rejected m \<Rightarrow> FetchRejected m
                  | Responded status txt parsed \<Rightarrow> Error (''Chat failed: '' @ decimal status @ '' '' @ txt))"
  have m: "error_message B err = error_message B' err"
    using failed_detail(1) [OF assms err_def] by simp
  have tb: "try_block B tid outcome msgs = (msgs, Some err)"
    and tb': "try_block B' tid outcome msgs = (msgs, Some err)" for tid msgs
    using assms by (simp_all add: try_block_failed err_def)
  have c: "catch_block B tid err msgs = catch_block B' tid err msgs" for tid msgs
  proof (cases msgs)
    case None
    then show ?thesis by (simp add: catch_block_None)
  next
    case (Some ns)
    define d where "d = ''Error: '' @ (if error_message B err \<noteq> [] then error_message B err else error_name err)"
    have d': "d = ''Error: '' @ (if error_message B' err \<noteq> [] then error_message B' err else error_name err)"
      unfolding d_def m ..
    show ?thesis
      unfolding Some catch_block_Some [OF d_def] catch_block_Some [OF d'] m ..
  qed
  show ?thesis
    by (simp add: sendChat_settle_def tb tb' c)
qed

text \<open>
  The error detail becomes the text content of the element that
  \<^verbatim>\<open>getElementById\<close> finds under the handle of the exchange, or of a new bot message
  when it finds none.
\<close>

lemma failure_detail_shown:
  assumes "failed outcome" and "messagesEl w = Some ns"
  shows "(find_by_id (ex_thinkingId x) ns = Some n \<longrightarrow>
            find_by_id (ex_thinkingId x) (children (sendChat_settle B x outcome w))
              = Some (Elem (el_class n) (Some (ex_thinkingId x))
                        (text_content (''Error: '' @ failure_detail outcome))))
       \<and> (find_by_id (ex_thinkingId x) ns = None \<longrightarrow>
            take (Suc (length ns)) (children (sendChat_settle B x outcome w))
              = ns @ [bot_text (''Error: '' @ failure_detail outcome)])"
proof -
  define err where "err = (case outcome of Rejected m \<Rightarrow> FetchRejected m
                  | Responded status txt parsed \<Rightarrow> Error (''Chat failed: '' @ decimal status @ '' '' @ txt))"
  define d where "d = ''Error: '' @ failure_detail outcome"
  have fd: "d = ''Error: '' @ (if error_message B err \<noteq> [] then error_message B err else error_name err)"
    unfolding d_def failed_detail(2) [OF assms(1) err_def] ..
  have tb: "try_block B tid outcome msgs = (msgs, Some err)" for tid msgs
    using assms(1) by (simp add: try_block_failed err_def)
  have s: "children (sendChat_settle B x outcome w)
           = (case find_by_id (ex_thinkingId x) ns of
                Some t \<Rightarrow> set_text_by_id (ex_thinkingId x) d ns
              | None \<Rightarrow> ns @ [bot_text d])
             @ (if error_message B err \<noteq> [] \<and> network_test (error_message B err)
                then [bot_text network_hint] else [])"
    by (simp add: sendChat_settle_def tb children_def assms(2) catch_block_Some [OF fd])
  show ?thesis
  proof (cases "find_by_id (ex_thinkingId x) ns")
    case None
    then show ?thesis by (simp add: s d_def)
  next
    case (Some m)
    from find_set_text(2) [OF Some, of d]
    show ?thesis using Some by (simp add: s find_by_id_append d_def)
  qed
qed

subsection \<open>Extraction, branch by branch\<close>

lemma get_field: "j \<noteq> JNull \<Longrightarrow> get (Some j) k = Inr (field j k)"
  by (cases j) simp_all

lemma get_field_truthy: "truthy m \<Longrightarrow> get (Some m) k = Inr (field m k)"
  by (cases m) simp_all

lemma first_truthy_Some: "\<exists>v. first_truthy vs = Some v"
  by (induction vs) (auto split: if_splits elim: truthy_u.elims)

lemma choice_text_eq:
  assumes "truthy c"
  shows "choice_text (Some c) =
     Inr (first_truthy [nested c ''message'' ''content'', field c ''text'', nested c ''delta'' ''content''])"
  using assms
  by (auto simp: choice_text_def js_and_def js_or_def dot_def nested_def get_field_truthy
           split: option.splits)

lemma choices_guard_hit:
  assumes "field j ''choices'' = Some (JArr (c # cs))"
  shows "choices_guard j = Inr (Some c)"
proof -
  have "j \<noteq> JNull" using assms by auto
  then show ?thesis using assms by (simp add: choices_guard_def js_and_def get_field)
qed

lemma choices_guard_miss:
  assumes "j \<noteq> JNull" and "\<not> (\<exists>c cs. field j ''choices'' = Some (JArr (c # cs)))"
  shows "\<exists>g. choices_guard j = Inr g \<and> \<not> truthy_u g"
proof (cases "field j ''choices''")
  case None
  then show ?thesis by (simp add: choices_guard_def js_and_def get_field [OF assms(1)])
next
  case (Some v)
  have nil: "xs = []" if "\<forall>c cs. xs \<noteq> c # cs" for xs :: "json list"
    using that by (cases xs) simp_all
  from Some assms(2) show ?thesis
    by (cases v) (auto simp: choices_guard_def js_and_def get_field [OF assms(1)] dest!: nil)
qed

lemma extractText_eq_spec:
  assumes "j \<noteq> JNull"
  shows "extractText j = extract_spec j"
proof -
  have rest: "(case get (Some j) ''output'' of
               Inl e \<Rightarrow> Inl e
             | Inr out \<Rightarrow>
                 if truthy_u out then output_text out
                 else
                   (case get (Some j) ''result'' of
                      Inl e \<Rightarrow> Inl e
                    | Inr r \<Rightarrow>
                        if truthy_u r then Inr r
                        else Inr (Some (JStr (JSON_stringify_pretty j))))) = extract_rest j"
    by (simp add: get_field [OF assms] extract_rest_def)
  show ?thesis
  proof (cases "\<exists>c cs. field j ''choices'' = Some (JArr (c # cs))")
    case True
    then obtain c cs where v: "field j ''choices'' = Some (JArr (c # cs))" by blast
    show ?thesis
    proof (cases "truthy c")
      case True
      then show ?thesis
        using v
        by (simp add: extractText_def choices_guard_hit [OF v] extract_spec_def dot_def
              get_field [OF assms] choice_text_eq)
    next
      case False
      then show ?thesis
        using v by (simp add: extractText_def choices_guard_hit [OF v] rest extract_spec_def)
    qed
  next
    case False
    from choices_guard_miss [OF assms False]
    obtain g where g: "choices_guard j = Inr g" "\<not> truthy_u g" by blast
    have s: "extract_spec j = extract_rest j"
      using False by (auto simp: extract_spec_def split: option.splits json.splits list.splits)
    show ?thesis
      using g by (simp add: extractText_def rest s)
  qed
qed

lemma array_map_ok:
  "(\<And>x. x \<in> set xs \<Longrightarrow> f x = Inr (g x)) \<Longrightarrow> array_map f xs = Inr (map g xs)"
  by (induction xs) simp_all

lemma output_element:
  "x \<noteq> JNull \<Longrightarrow>
   js_or (get (Some x) ''content'') (Inr (Some (JStr (JSON_stringify x))))
     = Inr (if truthy_u (field x ''content'') then field x ''content''
            else Some (JStr (JSON_stringify x)))"
  by (simp add: js_or_def get_field)

lemma output_text_returns:
  assumes "output_joinable j" and "truthy_u (field j ''output'')"
  shows "\<exists>s. output_text (field j ''output'') = Inr (Some (JStr s))"
proof -
  from assms(2) obtain out where out: "field j ''output'' = Some out"
    by (cases "field j ''output''") simp_all
  show ?thesis
  proof (cases out)
    case (JArr xs)
    define g where "g = (\<lambda>x. if truthy_u (field x ''content'') then field x ''content''
                              else Some (JStr (JSON_stringify x)))"
    from assms(1) out JArr
    have ok: "x \<noteq> JNull \<and> (case field x ''content'' of Some c \<Rightarrow> truthy c \<longrightarrow> \<not> toString_raises c | None \<Rightarrow> True)"
      if "x \<in> set xs" for x
      using that by (simp add: output_joinable_def)
    have m: "array_map (\<lambda>x. js_or (get (Some x) ''content'') (Inr (Some (JStr (JSON_stringify x))))) xs
             = Inr (map g xs)"
      by (rule array_map_ok) (simp add: output_element ok g_def)
    have nr: "\<not> (\<exists>y \<in> set (map g xs). case y of None \<Rightarrow> False | Some v \<Rightarrow> toString_raises v)"
    proof
      assume "\<exists>y \<in> set (map g xs). case y of None \<Rightarrow> False | Some v \<Rightarrow> toString_raises v"
      then obtain x where x: "x \<in> set xs" and r: "case g x of None \<Rightarrow> False | Some v \<Rightarrow> toString_raises v"
        by auto
      from ok [OF x] r show False
        by (cases "field x ''content''") (auto simp: g_def split: if_splits)
    qed
    show ?thesis
      using nr by (simp add: out JArr output_text_def m array_join_def)
  qed (simp_all add: out output_text_def)
qed

lemma extract_spec_returns:
  assumes "output_joinable j"
  shows "\<exists>v. extract_spec j = Inr (Some v)"
proof -
  have rest: "\<exists>v. extract_rest j = Inr (Some v)"
  proof (cases "truthy_u (field j ''output'')")
    case True
    with output_text_returns [OF assms True] show ?thesis by (auto simp: extract_rest_def)
  next
    case False
    then show ?thesis
      by (cases "field j ''result''") (auto simp: extract_rest_def)
  qed
  show ?thesis
  proof (cases "\<exists>c cs. field j ''choices'' = Some (JArr (c # cs)) \<and> truthy c")
    case True
    then obtain c cs where "field j ''choices'' = Some (JArr (c # cs))" "truthy c" by blast
    then show ?thesis
      using first_truthy_Some [of "[nested c ''message'' ''content'', field c ''text'', nested c ''delta'' ''content'']"]
      by (auto simp: extract_spec_def)
  next
    case False
    then have "extract_spec j = extract_rest j"
      by (auto simp: extract_spec_def split: option.splits json.splits list.splits)
    with rest show ?thesis by simp
  qed
qed

lemma extract_spec_fallback:
  assumes "\<not> (\<exists>c cs. field j ''choices'' = Some (JArr (c # cs)) \<and> truthy c)"
    and "\<not> truthy_u (field j ''output'')" and "\<not> truthy_u (field j ''result'')"
  shows "extract_spec j = Inr (Some (JStr (JSON_stringify_pretty j)))"
proof -
  from assms(1) have "extract_spec j = extract_rest j"
    by (auto simp: extract_spec_def split: option.splits json.splits list.splits)
  with assms(2,3) show ?thesis by (simp add: extract_rest_def)
qed

lemma first_choice_None_iff:
  "first_choice j = None \<longleftrightarrow> \<not> (\<exists>c cs. field j ''choices'' = Some (JArr (c # cs)) \<and> truthy c)"
  by (auto simp: first_choice_def split: option.splits json.splits list.splits)

lemma extract_spec_choice:
  "first_choice j = Some c \<Longrightarrow>
   extract_spec j = Inr (first_truthy [nested c ''message'' ''content'', field c ''text'',
                                       nested c ''delta'' ''content''])"
  by (auto simp: first_choice_def extract_spec_def split: option.splits json.splits list.splits if_splits)

lemma extract_spec_no_choice: "first_choice j = None \<Longrightarrow> extract_spec j = extract_rest j"
  by (auto simp: first_choice_def extract_spec_def split: option.splits json.splits list.splits if_splits)

lemma first_truthy_null: "\<forall>v \<in> set vs. \<not> truthy_u v \<Longrightarrow> first_truthy vs = Some JNull"
  by (induction vs) simp_all

lemma extractText_null: "extractText JNull = Inl TypeError"
  by (simp add: extractText_def choices_guard_def js_and_def)

lemma array_map_raises: "x \<in> set xs \<Longrightarrow> f x = Inl e \<Longrightarrow> \<exists>e'. array_map f xs = Inl e'"
  by (induction xs) (auto split: sum.splits)

text \<open>An \<open>output\<close> sequence that cannot be joined makes line 184 raise.\<close>

lemma output_text_raises:
  assumes "field j ''output'' = Some (JArr xs)" and "\<not> output_joinable j"
  shows "\<exists>e. output_text (Some (JArr xs)) = Inl e"
proof (cases "JNull \<in> set xs")
  case True
  have "js_or (get (Some JNull) ''content'') (Inr (Some (JStr (JSON_stringify JNull)))) = Inl TypeError"
    by (simp add: js_or_def)
  from array_map_raises [of JNull xs
      "\<lambda>x. js_or (get (Some x) ''content'') (Inr (Some (JStr (JSON_stringify x))))", OF True this]
  show ?thesis by (auto simp: output_text_def)
next
  case False
  define g where "g = (\<lambda>x. if truthy_u (field x ''content'') then field x ''content''
                              else Some (JStr (JSON_stringify x)))"
  have m: "array_map (\<lambda>x. js_or (get (Some x) ''content'') (Inr (Some (JStr (JSON_stringify x))))) xs
             = Inr (map g xs)"
  proof (rule array_map_ok)
    fix x assume "x \<in> set xs"
    with False have "x \<noteq> JNull" by auto
    then show "js_or (get (Some x) ''content'') (Inr (Some (JStr (JSON_stringify x)))) = Inr (g x)"
      by (simp add: output_element g_def)
  qed
  from assms False obtain x c where x: "x \<in> set xs" and c: "field x ''content'' = Some c"
    and t: "truthy c" and r: "toString_raises c"
    by (auto simp: output_joinable_def split: option.splits)
  from c t r have "case g x of None \<Rightarrow> False | Some v \<Rightarrow> toString_raises v"
    by (simp add: g_def)
  with x have "\<exists>y \<in> set (map g xs). case y of None \<Rightarrow> False | Some v \<Rightarrow> toString_raises v"
    by auto
  then show ?thesis
    by (simp add: output_text_def m array_join_def)
qed

text \<open>Extraction returns only on a readable response.\<close>

lemma extractText_returns_readable:
  assumes "extractText j = Inr r"
  shows "extract_readable j"
proof -
  from assms have n: "j \<noteq> JNull" using extractText_null by auto
  show ?thesis
  proof (cases "first_choice j")
    case (Some c)
    with n show ?thesis by (simp add: extract_readable_def)
  next
    case None
    have "output_joinable j"
    proof (rule ccontr)
      assume nj: "\<not> output_joinable j"
      then obtain xs where o: "field j ''output'' = Some (JArr xs)"
        by (auto simp: output_joinable_def split: option.splits json.splits)
      from output_text_raises [OF o nj] obtain e where "output_text (Some (JArr xs)) = Inl e" by blast
      with o have "extract_rest j = Inl e" by (simp add: extract_rest_def)
      with assms show False
        by (simp add: extractText_eq_spec [OF n] extract_spec_no_choice [OF None])
    qed
    with n show ?thesis by (simp add: extract_readable_def)
  qed
qed

subsection \<open>The catalog\<close>

lemma catalog_entry_eq: "x \<noteq> JNull \<Longrightarrow> catalog_entry x = Inr (entry_spec x)"
  by (simp add: catalog_entry_def entry_spec_def js_or_def get_field)

lemma catalog_entry_array_returns:
  assumes "x \<noteq> JNull"
    and "truthy_u (field x ''id'') \<or> truthy_u (field x ''model'') \<or> truthy_u (field x ''name'')
         \<or> \<not> toString_raises x"
  shows "\<exists>v. catalog_entry_array x = Inr (Some v)"
  using assms
  by (cases "field x ''id''"; cases "field x ''model''"; cases "field x ''name''")
     (auto simp: catalog_entry_array_def js_or_def get_field ToString_def)

lemma array_map_returns:
  "(\<And>x. x \<in> set xs \<Longrightarrow> \<exists>y. f x = Inr y) \<Longrightarrow> \<exists>ys. array_map f xs = Inr ys \<and> length ys = length xs"
proof (induction xs)
  case Nil
  then show ?case by simp
next
  case (Cons x xs)
  from Cons.prems [of x] obtain y where y: "f x = Inr y" by auto
  from Cons.IH Cons.prems obtain ys where "array_map f xs = Inr ys" "length ys = length xs" by auto
  with y show ?case by simp
qed

lemma object_keys_returns: "j \<noteq> JNull \<Longrightarrow> \<exists>ks. object_keys (Some j) = Inr ks"
  by (cases j) simp_all

lemma catalog_models_returns:
  assumes "catalog_readable j"
  shows "\<exists>ms. catalog_models j = Inr ms"
proof -
  from assms have n: "j \<noteq> JNull" by (simp add: catalog_readable_def)
  show ?thesis
  proof (cases "isArray (Some j)")
    case True
    have "\<exists>y. catalog_entry_array x = Inr y" if x: "x \<in> set (elements (Some j))" for x
    proof -
      from assms True x have "x \<noteq> JNull"
        by (simp add: catalog_readable_def catalog_source_def)
      moreover from assms True x
      have "truthy_u (field x ''id'') \<or> truthy_u (field x ''model'') \<or> truthy_u (field x ''name'')
            \<or> \<not> toString_raises x"
        by (simp add: catalog_readable_def)
      ultimately show ?thesis using catalog_entry_array_returns by blast
    qed
    from array_map_returns [of "elements (Some j)" catalog_entry_array, OF this] True
    show ?thesis by (auto simp: catalog_models_def)
  next
    case a: False
    show ?thesis
    proof (cases "isArray (field j ''data'')")
      case True
      with a assms have "\<And>x. x \<in> set (elements (field j ''data'')) \<Longrightarrow> catalog_entry x = Inr (entry_spec x)"
        by (auto simp: catalog_readable_def catalog_source_def catalog_entry_eq)
      from array_map_ok [of "elements (field j ''data'')" catalog_entry entry_spec, OF this] a True
      show ?thesis by (simp add: catalog_models_def get_field [OF n])
    next
      case d: False
      show ?thesis
      proof (cases "isArray (field j ''models'')")
        case True
        with a d assms have "\<And>x. x \<in> set (elements (field j ''models'')) \<Longrightarrow> catalog_entry x = Inr (entry_spec x)"
          by (auto simp: catalog_readable_def catalog_source_def catalog_entry_eq)
        from array_map_ok [of "elements (field j ''models'')" catalog_entry entry_spec, OF this] a d True
        show ?thesis by (simp add: catalog_models_def get_field [OF n])
      next
        case False
        with a d object_keys_returns [OF n] show ?thesis
          by (auto simp: catalog_models_def get_field [OF n])
      qed
    qed
  qed
qed

lemma fallback_nonempty: "fallback_models \<noteq> []"
  by (simp add: fallback_models_def)

subsection \<open>The script test\<close>

lemma to_upper_fixed:
  assumes "(of_char p :: nat) < 65"
  shows "to_upper p = to_upper c \<longleftrightarrow> c = p"
proof -
  define n where "n = (of_char c :: nat)"
  have p: "to_upper p = p" using assms by (simp add: to_upper_def Let_def)
  show ?thesis
  proof (cases "97 \<le> n \<and> n \<le> 122")
    case True
    then have u: "to_upper c = char_of (n - 32)" by (simp add: to_upper_def Let_def n_def)
    have "(of_char (to_upper c) :: nat) = (n - 32) mod 256"
      unfolding u by (simp only: of_char_of)
    moreover from True have "n - 32 < 256" by linarith
    ultimately have "(of_char (to_upper c) :: nat) = n - 32" by simp
    with True have "(of_char (to_upper c) :: nat) \<ge> 65" by linarith
    with assms have "to_upper c \<noteq> p" by auto
    moreover from True assms have "c \<noteq> p" by (auto simp: n_def)
    ultimately show ?thesis by (simp add: p)
  next
    case False
    then have "to_upper c = c" by (auto simp: to_upper_def Let_def n_def)
    then show ?thesis by (auto simp: p)
  qed
qed

lemma starts_ci_iff: "starts_ci p s \<longleftrightarrow> map to_upper (take (length p) s) = map to_upper p"
  by (induction p s rule: starts_ci.induct) auto

lemma test_anywhere_iff: "test_anywhere m s \<longleftrightarrow> (\<exists>i \<le> length s. m (drop i s))"
proof (induction s)
  case Nil
  then show ?case by simp
next
  case (Cons c cs)
  have "(\<exists>i \<le> length (c # cs). m (drop i (c # cs))) \<longleftrightarrow> m (c # cs) \<or> (\<exists>i \<le> length cs. m (drop i cs))"
  proof
    assume "\<exists>i \<le> length (c # cs). m (drop i (c # cs))"
    then obtain i where i: "i \<le> length (c # cs)" "m (drop i (c # cs))" by blast
    show "m (c # cs) \<or> (\<exists>i \<le> length cs. m (drop i cs))"
    proof (cases i)
      case 0
      with i show ?thesis by simp
    next
      case (Suc k)
      with i have "k \<le> length cs" "m (drop k cs)" by simp_all
      then show ?thesis by blast
    qed
  next
    assume "m (c # cs) \<or> (\<exists>i \<le> length cs. m (drop i cs))"
    then show "\<exists>i \<le> length (c # cs). m (drop i (c # cs))"
    proof
      assume "m (c # cs)"
      then have "0 \<le> length (c # cs) \<and> m (drop 0 (c # cs))" by simp
      then show ?thesis by blast
    next
      assume "\<exists>i \<le> length cs. m (drop i cs)"
      then obtain i where "i \<le> length cs" "m (drop i cs)" by blast
      then have "Suc i \<le> length (c # cs) \<and> m (drop (Suc i) (c # cs))" by simp
      then show ?thesis by blast
    qed
  qed
  with Cons show ?case by simp
qed

lemma script_at_iff: "script_at s \<longleftrightarrow> starts_ci ''<script'' s \<or> starts_ci ''</script'' s"
proof (cases s)
  case Nil
  then show ?thesis by simp
next
  case (Cons c cs)
  have lt: "to_upper CHR ''<'' = to_upper c \<longleftrightarrow> c = CHR ''<''"
    by (rule to_upper_fixed) simp
  have sl: "to_upper CHR ''/'' = to_upper d \<longleftrightarrow> d = CHR ''/''" for d
    by (rule to_upper_fixed) simp
  show ?thesis
  proof (cases cs)
    case Nil
    with Cons show ?thesis by (simp add: lt)
  next
    case (Cons d ds)
    have a: "starts_ci ''</script'' (c # d # ds) \<longleftrightarrow> c = CHR ''<'' \<and> d = CHR ''/'' \<and> starts_ci ''script'' ds"
      using lt sl [of d] by simp
    have b: "starts_ci ''<script'' (c # d # ds) \<longleftrightarrow> c = CHR ''<'' \<and> starts_ci ''script'' (d # ds)"
      using lt by simp
    have c: "script_at (c # d # ds) \<longleftrightarrow>
             c = CHR ''<'' \<and> ((d = CHR ''/'' \<and> starts_ci ''script'' ds) \<or> starts_ci ''script'' (d # ds))"
      by simp
    show ?thesis unfolding \<open>s = c # cs\<close> Cons a b c by blast
  qed
qed

lemma script_test_iff: "script_test s \<longleftrightarrow> contains_ci ''<script'' s \<or> contains_ci ''</script'' s"
  unfolding script_test_def test_anywhere_iff script_at_iff contains_ci_def starts_ci_iff
  by blast

lemma replace_newlines_id: "CHR 0x0A \<notin> set s \<Longrightarrow> replace_newlines s = s"
  by (induction s) (auto simp: replace_newlines_def)

lemma script_test_Nil: "\<not> script_test []"
  by (simp add: script_test_def)

text \<open>Lines 197-208 on a string.\<close>

lemma show_assistant_string:
  "script_test s \<Longrightarrow> show_assistant B (Some (JStr s)) (Some ns) = Inr (Some (ns @ [bot_text s]))"
  "\<not> script_test s \<Longrightarrow>
     show_assistant B (Some (JStr s)) (Some ns)
       = Inr (Some (ns @ [Elem ''msg bot'' None (parse_html B (replace_newlines s))]))"
proof -
  show "show_assistant B (Some (JStr s)) (Some ns) = Inr (Some (ns @ [bot_text s]))" if t: "script_test s"
  proof -
    from t have "s \<noteq> []" using script_test_Nil by auto
    with t show ?thesis
      by (simp add: show_assistant_def ToString_def appendMessage_text bot_text_def)
  qed
  show "show_assistant B (Some (JStr s)) (Some ns)
       = Inr (Some (ns @ [Elem ''msg bot'' None (parse_html B (replace_newlines s))]))" if "\<not> script_test s"
    using that
    by (cases "s = []") (simp_all add: show_assistant_def ToString_def replace_newlines_def)
qed

section \<open>The claims\<close>

subsection \<open>C1: Rendering of the assistant text\<close>

text \<open>
  C1 fails on the program. The text \<^verbatim>\<open><img src=x onerror=alert(1)>\<close> does not match
  the script test of line 197, so lines 202-205 hand it to the HTML parser through
  \<^verbatim>\<open>innerHTML\<close> and its markup, an element with an event handler, is interpreted. The
  sibling branch (lines 197-199) shows a text with a script tag as plain text.
\<close>

theorem markup_reaches_innerHTML:
  "show_assistant B (Some (JStr ''<img src=x onerror=alert(1)>'')) (Some ns)
     = Inr (Some (ns @ [Elem ''msg bot'' None (parse_html B ''<img src=x onerror=alert(1)>'')]))
   \<and> show_assistant B (Some (JStr ''<script>alert(1)</script>'')) (Some ns)
     = Inr (Some (ns @ [Elem ''msg bot'' None [Text ''<script>alert(1)</script>'']]))"
proof -
  have a: "\<not> script_test ''<img src=x onerror=alert(1)>''" by code_simp
  have b: "script_test ''<script>alert(1)</script>''" by code_simp
  have r: "replace_newlines ''<img src=x onerror=alert(1)>'' = ''<img src=x onerror=alert(1)>''"
    by (rule replace_newlines_id) simp
  from show_assistant_string(2) [OF a, of B ns] show_assistant_string(1) [OF b, of B ns] r
  show ?thesis by (simp add: bot_text_def text_content_def)
qed

subsection \<open>C2: Extraction returns\<close>

text \<open>
  C2 (as amended). For every response that is not \<open>null\<close>, extraction returns a
  value and raises nothing, provided that, when no truthy element 0 of \<open>choices\<close>
  answers and \<open>output\<close> is a sequence, that sequence can be joined. When no branch
  applies, the value is the pretty-printed JSON text of the whole response; when the
  \<open>output\<close> branch answers, it is text; when a truthy element 0 of \<open>choices\<close> has no
  truthy \<open>message.content\<close>, \<open>text\<close> or \<open>delta.content\<close>, it is \<open>null\<close>.
\<close>

theorem extractText_returns:
  assumes "extract_readable j"
  shows "(\<exists>v. extractText j = Inr (Some v))
       \<and> (first_choice j = None \<and> \<not> truthy_u (field j ''output'') \<and> \<not> truthy_u (field j ''result'')
            \<longrightarrow> extractText j = Inr (Some (JStr (JSON_stringify_pretty j))))
       \<and> (first_choice j = None \<and> truthy_u (field j ''output'')
            \<longrightarrow> (\<exists>s. extractText j = Inr (Some (JStr s))))
       \<and> (first_choice j = Some c \<and> \<not> truthy_u (nested c ''message'' ''content'')
            \<and> \<not> truthy_u (field c ''text'') \<and> \<not> truthy_u (nested c ''delta'' ''content'')
            \<longrightarrow> extractText j = Inr (Some JNull))"
proof -
  from assms have n: "j \<noteq> JNull" by (simp add: extract_readable_def)
  note e = extractText_eq_spec [OF n]
  show ?thesis
  proof (cases "first_choice j")
    case (Some d)
    from first_truthy_Some [of "[nested d ''message'' ''content'', field d ''text'', nested d ''delta'' ''content'']"]
    have 1: "\<exists>v. extractText j = Inr (Some v)"
      by (simp add: e extract_spec_choice [OF Some])
    have 4: "extractText j = Inr (Some JNull)"
      if "\<not> truthy_u (nested d ''message'' ''content'')" "\<not> truthy_u (field d ''text'')"
         "\<not> truthy_u (nested d ''delta'' ''content'')"
      using that by (simp add: e extract_spec_choice [OF Some])
    from 1 4 Some show ?thesis by auto
  next
    case None
    with assms have oj: "output_joinable j" by (simp add: extract_readable_def)
    have r: "extractText j = extract_rest j"
      by (simp add: e extract_spec_no_choice [OF None])
    from extract_spec_returns [OF oj] have 1: "\<exists>v. extractText j = Inr (Some v)"
      by (simp add: e)
    have 2: "extractText j = Inr (Some (JStr (JSON_stringify_pretty j)))"
      if "\<not> truthy_u (field j ''output'')" "\<not> truthy_u (field j ''result'')"
      using that by (simp add: r extract_rest_def)
    have 3: "\<exists>s. extractText j = Inr (Some (JStr s))" if "truthy_u (field j ''output'')"
      using output_text_returns [OF oj that] that by (simp add: r extract_rest_def)
    from 1 2 3 None show ?thesis by auto
  qed
qed

text \<open>
  C2 on the empty object and the empty array, and on a response whose \<open>output\<close>
  sequence has a \<open>null\<close> element but whose first choice answers.
\<close>

theorem extractText_returns_witness:
  "extract_readable (JObj []) \<and> extract_readable (JArr [])
   \<and> extract_readable (JObj [(''choices'', JArr [JObj [(''text'', JStr ''hi'')]]), (''output'', JArr [JNull])])
   \<and> extractText (JObj []) = Inr (Some (JStr ''{}''))
   \<and> extractText (JArr []) = Inr (Some (JStr ''[]''))
   \<and> extractText (JObj [(''choices'', JArr [JObj [(''text'', JStr ''hi'')]]), (''output'', JArr [JNull])])
       = Inr (Some (JStr ''hi''))"
proof -
  have r1: "extract_readable (JObj [])" and r2: "extract_readable (JArr [])"
    by (simp_all add: extract_readable_def output_joinable_def)
  have r3: "extract_readable (JObj [(''choices'', JArr [JObj [(''text'', JStr ''hi'')]]), (''output'', JArr [JNull])])"
    by (simp add: extract_readable_def first_choice_def)
  have f1: "first_choice (JObj []) = None" and f2: "first_choice (JArr []) = None"
    by (simp_all add: first_choice_def)
  have p1: "JSON_stringify_pretty (JObj []) = ''{}''" and p2: "JSON_stringify_pretty (JArr []) = ''[]''"
    by (simp_all add: JSON_stringify_pretty_def)
  have h: "extractText (JObj [(''choices'', JArr [JObj [(''text'', JStr ''hi'')]]), (''output'', JArr [JNull])])
       = Inr (Some (JStr ''hi''))"
    by code_simp
  from extractText_returns [OF r1] f1 p1 have a: "extractText (JObj []) = Inr (Some (JStr ''{}''))"
    by simp
  from extractText_returns [OF r2] f2 p2 have b: "extractText (JArr []) = Inr (Some (JStr ''[]''))"
    by simp
  from r1 r2 r3 a b h show ?thesis by simp
qed

text \<open>
  C2 as stated fails: on \<open>null\<close> extraction raises; on a first choice without any of
  the three fields it returns \<open>null\<close>, not text; on an \<open>output\<close> sequence with a
  \<open>null\<close> element it raises.
\<close>

theorem extractText_not_total:
  "extractText JNull = Inl TypeError
   \<and> extractText (JObj [(''choices'', JArr [JObj []])]) = Inr (Some JNull)
   \<and> extractText (JObj [(''output'', JArr [JNull])]) = Inl TypeError"
  by code_simp

subsection \<open>C3: The catalog is never empty\<close>

text \<open>
  C3 (as amended). For every catalog response the program can read (not \<open>null\<close>, no
  \<open>null\<close> element in the mapped sequence, top-level elements convertible),
  normalization raises nothing and returns a non-empty sequence: the one found in the
  response, or, when that one is empty, the fallback list together with the notice. A
  \<open>data\<close> or \<open>models\<close> field that is missing or not a sequence is passed over.
\<close>

theorem normalize_nonempty:
  assumes "catalog_readable j"
  shows "\<exists>ms notice. normalize_catalog j = Inr (ms, notice) \<and> ms \<noteq> []
           \<and> (notice \<longrightarrow> ms = fallback_models \<and> catalog_models j = Inr [])
           \<and> (\<not> notice \<longrightarrow> catalog_models j = Inr ms)"
proof -
  from catalog_models_returns [OF assms] obtain ms where ms: "catalog_models j = Inr ms" by blast
  show ?thesis
  proof (cases "ms = []")
    case True
    with ms have "normalize_catalog j = Inr (fallback_models, True)" by (simp add: normalize_catalog_def)
    with ms True show ?thesis
      by (intro exI [of _ fallback_models] exI [of _ True]) (simp add: fallback_nonempty)
  next
    case False
    with ms have "normalize_catalog j = Inr (ms, False)" by (simp add: normalize_catalog_def)
    with ms False show ?thesis
      by (intro exI [of _ ms] exI [of _ False]) simp
  qed
qed

text \<open>
  C3 on the empty object (fallback list and notice), and on an object whose \<open>data\<close>
  field is a number, not a sequence: the field is passed over and the keys are taken.
\<close>

theorem normalize_nonempty_witness:
  "catalog_readable (JObj [])
   \<and> normalize_catalog (JObj []) = Inr (fallback_models, True)
   \<and> normalize_catalog (JObj [(''data'', JNum (Num ''5''))]) = Inr ([Some (JStr ''data'')], False)
   \<and> (\<exists>ms notice. normalize_catalog (JObj []) = Inr (ms, notice) \<and> ms \<noteq> [])"
proof -
  have r: "catalog_readable (JObj [])" by (simp add: catalog_readable_def catalog_source_def)
  have a: "normalize_catalog (JObj []) = Inr (fallback_models, True)" by code_simp
  have b: "normalize_catalog (JObj [(''data'', JNum (Num ''5''))]) = Inr ([Some (JStr ''data'')], False)" by code_simp
  from normalize_nonempty [OF r] have "\<exists>ms notice. normalize_catalog (JObj []) = Inr (ms, notice) \<and> ms \<noteq> []"
    by blast
  with r a b show ?thesis by blast
qed

text \<open>
  C3 as stated fails: on \<open>null\<close>, and on a sequence with a \<open>null\<close> element, the
  field access raises.
\<close>

theorem normalize_raises_on_null:
  "normalize_catalog JNull = Inl TypeError \<and> normalize_catalog (JArr [JNull]) = Inl TypeError"
  by code_simp

subsection \<open>C4: Sends in flight\<close>

text \<open>
  C4 (as amended). The program has no single-flight guard: a send request with a
  non-blank prompt, a resolvable key and a \<^verbatim>\<open>#messages\<close> element starts a new exchange
  whatever is already in flight, so the number of pending exchanges grows by one; the
  user message and one more placeholder are appended to the messages.
\<close>

theorem send_always_starts:
  assumes "promptEl w = Some v" and "trim v \<noteq> []"
    and "getApiKey (OPENAI_KEY w) (apiKeyInput w) = Some key"
    and "messagesEl w = Some els"
  shows "in_flight (fst (sendChat_start B now w))
         = in_flight w @ [\<lparr> ex_thinkingId = thinkingId now,
                            ex_request = chat_request key (build_payload (read_config w) (trim v)) \<rparr>]
       \<and> length (in_flight (fst (sendChat_start B now w))) = Suc (length (in_flight w))
       \<and> children (fst (sendChat_start B now w))
           = els @ [Elem ''msg user'' None (text_content (trim v)),
                    Elem ''msg bot'' (Some (thinkingId now)) (text_content thinking_text)]"
  by (simp add: sendChat_start_ok [OF assms] children_def)

text \<open>C4 on the page that already has one exchange pending: the send makes it two.\<close>

theorem send_always_starts_witness:
  "promptEl busy_page = Some ''second'' \<and> trim ''second'' \<noteq> []
   \<and> getApiKey (OPENAI_KEY busy_page) (apiKeyInput busy_page) = Some ''sk-test''
   \<and> messagesEl busy_page \<noteq> None
   \<and> length (in_flight busy_page) = 1
   \<and> length (in_flight (fst (sendChat_start example_browser 1700000000500 busy_page))) = 2"
proof -
  have p: "promptEl busy_page = Some ''second''" by (simp add: busy_page_def example_page_def)
  have t: "trim ''second'' \<noteq> []" by (simp add: trim_second)
  have k: "getApiKey (OPENAI_KEY busy_page) (apiKeyInput busy_page) = Some ''sk-test''"
    by (simp add: busy_page_def example_page_def key_example)
  have m: "messagesEl busy_page = Some [Elem ''msg user'' None [Text ''first''],
                                        Elem ''msg bot'' (Some ''thinking-1700000000000'') [Text ''Thinking...'']]"
    by (simp add: busy_page_def example_page_def)
  have l: "length (in_flight busy_page) = 1" by (simp add: busy_page_def example_page_def)
  from send_always_starts [OF p t k m, where B = example_browser and now = 1700000000500] p t k m l show ?thesis by simp
qed

text \<open>
  C4 as stated fails: two send requests, the second before the first request has
  settled, leave two exchanges pending.
\<close>

theorem second_send_second_pending:
  "length (in_flight (run example_browser
      [TypePrompt ''first'', RequestSend 1700000000000, TypePrompt ''second'', RequestSend 1700000000500]
      example_page)) = 2"
  by (simp add: step_def example_page_def sendChat_start_ok [where v = "''first''" and key = "''sk-test''"]
        sendChat_start_ok [where v = "''second''" and key = "''sk-test''"] trim_first trim_second key_example)

subsection \<open>C5: No key, no request\<close>

text \<open>
  C5 (as amended). When no candidate key resolves, a send request makes no HTTP
  request, leaves the messages as they are (no user message, no placeholder) and raises
  nothing; when the prompt is not blank, the failure is surfaced by an alert.
\<close>

theorem no_key_no_send:
  assumes "candidate_blank (OPENAI_KEY w)" and "candidate_blank (apiKeyInput w)"
  shows "snd (sendChat_start B now w) = None
       \<and> in_flight (fst (sendChat_start B now w)) = in_flight w
       \<and> messagesEl (fst (sendChat_start B now w)) = messagesEl w
       \<and> (promptEl w = Some v \<and> trim v \<noteq> []
             \<longrightarrow> alerts (fst (sendChat_start B now w)) = alerts w @ [missing_key_alert])"
proof -
  from assms have k: "getApiKey (OPENAI_KEY w) (apiKeyInput w) = None"
    by (simp add: getApiKey_None_iff)
  show ?thesis
    by (cases "promptEl w") (simp_all add: sendChat_start_def k Let_def)
qed

text \<open>C5 on a page whose only key candidate is blank, with the prompt filled.\<close>

theorem no_key_no_send_witness:
  "candidate_blank None \<and> candidate_blank (Some ''  '')
   \<and> sendChat_start example_browser 5 (example_page\<lparr> OPENAI_KEY := None, apiKeyInput := Some ''  '', promptEl := Some ''hello'' \<rparr>)
     = (example_page\<lparr> OPENAI_KEY := None, apiKeyInput := Some ''  '', promptEl := Some ''hello'',
                      alerts := [missing_key_alert] \<rparr>, None)"
  using no_key_no_send [where w = "example_page\<lparr> OPENAI_KEY := None, apiKeyInput := Some ''  '', promptEl := Some ''hello'' \<rparr>"
      and now = 5 and v = "''hello''" and B = example_browser]
  by code_simp

text \<open>
  C5 as stated fails: with a blank prompt and no key, line 127 returns before the key
  is looked at, and nothing is surfaced.
\<close>

theorem blank_prompt_no_alert:
  "getApiKey None None = None
   \<and> sendChat_start example_browser 5 (example_page\<lparr> OPENAI_KEY := None, promptEl := Some ''  '' \<rparr>)
     = (example_page\<lparr> OPENAI_KEY := None, promptEl := Some ''  '' \<rparr>, None)
   \<and> alerts (example_page\<lparr> OPENAI_KEY := None, promptEl := Some ''  '' \<rparr>) = []"
  by code_simp

subsection \<open>C6: The request body\<close>

text \<open>
  C6. For every generation config and user text, the payload carries the configured
  model and temperature unchanged; its messages are the system message, present if and
  only if the system prompt is not empty, followed by exactly one user message with the
  user text. The body of the request is the JSON text of the object whose fields are
  \<open>model\<close>, \<open>messages\<close> and \<open>temperature\<close>, in this order, with these values.
\<close>

theorem build_payload_shape:
  "model (build_payload cfg userText) = cfg_model cfg
   \<and> temperature (build_payload cfg userText) = cfg_temperature cfg
   \<and> last (messages (build_payload cfg userText)) = \<lparr> role = ''user'', content = userText \<rparr>
   \<and> filter (\<lambda>m. role m = ''user'') (messages (build_payload cfg userText))
       = [\<lparr> role = ''user'', content = userText \<rparr>]
   \<and> butlast (messages (build_payload cfg userText))
       = (if cfg_systemPrompt cfg = [] then []
          else [\<lparr> role = ''system'', content = cfg_systemPrompt cfg \<rparr>])
   \<and> ((\<exists>m \<in> set (messages (build_payload cfg userText)). role m = ''system'')
        \<longleftrightarrow> cfg_systemPrompt cfg \<noteq> [])
   \<and> req_body (chat_request key (build_payload cfg userText))
       = JSON_stringify (payload_json (build_payload cfg userText))
   \<and> (cfg_model cfg = Some m \<longrightarrow>
        payload_json (build_payload cfg userText)
          = JObj [(''model'', JStr m),
                  (''messages'', JArr (map message_json (messages (build_payload cfg userText)))),
                  (''temperature'', JNum (cfg_temperature cfg))])"
  by (simp add: build_payload_def chat_request_def payload_json_def)

text \<open>C6 at a config with a system prompt: two messages, system first.\<close>

theorem build_payload_shape_witness:
  "messages (build_payload \<lparr> cfg_model = Some ''m1'', cfg_temperature = Num ''0.7'',
                            cfg_systemPrompt = ''Be brief'' \<rparr> ''Hello'')
     = [\<lparr> role = ''system'', content = ''Be brief'' \<rparr>, \<lparr> role = ''user'', content = ''Hello'' \<rparr>]
   \<and> payload_json (build_payload \<lparr> cfg_model = Some ''m1'', cfg_temperature = Num ''0.7'',
                            cfg_systemPrompt = ''Be brief'' \<rparr> ''Hello'')
     = JObj [(''model'', JStr ''m1''),
             (''messages'', JArr [JObj [(''role'', JStr ''system''), (''content'', JStr ''Be brief'')],
                                  JObj [(''role'', JStr ''user''), (''content'', JStr ''Hello'')]]),
             (''temperature'', JNum (Num ''0.7''))]"
proof -
  have m: "messages (build_payload \<lparr> cfg_model = Some ''m1'', cfg_temperature = Num ''0.7'',
                            cfg_systemPrompt = ''Be brief'' \<rparr> ''Hello'')
     = [\<lparr> role = ''system'', content = ''Be brief'' \<rparr>, \<lparr> role = ''user'', content = ''Hello'' \<rparr>]"
    by (simp add: build_payload_def)
  from build_payload_shape [of "\<lparr> cfg_model = Some ''m1'', cfg_temperature = Num ''0.7'',
                            cfg_systemPrompt = ''Be brief'' \<rparr>" "''Hello''" "''k''" "''m1''"]
  have "payload_json (build_payload \<lparr> cfg_model = Some ''m1'', cfg_temperature = Num ''0.7'',
                            cfg_systemPrompt = ''Be brief'' \<rparr> ''Hello'')
     = JObj [(''model'', JStr ''m1''),
             (''messages'', JArr (map message_json (messages (build_payload \<lparr> cfg_model = Some ''m1'',
                  cfg_temperature = Num ''0.7'', cfg_systemPrompt = ''Be brief'' \<rparr> ''Hello'')))),
             (''temperature'', JNum (Num ''0.7''))]"
    by simp
  with m show ?thesis by (simp add: message_json_def)
qed

subsection \<open>C7: Order of the extraction branches\<close>

text \<open>
  C7 (as amended). For a response that is not \<open>null\<close>, extraction tries the branches
  in order and the first that applies decides: a \<open>choices\<close> sequence whose element 0
  is truthy (its \<open>message.content\<close>, else \<open>text\<close>, else \<open>delta.content\<close>, each taken
  when truthy, else \<open>null\<close>), then a truthy \<open>output\<close>, then a truthy \<open>result\<close>, then
  the pretty-printed JSON text of the whole value.
\<close>

theorem extraction_order:
  assumes "j \<noteq> JNull"
  shows "extractText j = extract_spec j"
  by (rule extractText_eq_spec [OF assms])

text \<open>C7 on the two responses the specification names: \<open>Hi\<close> and \<open>ok\<close>.\<close>

theorem extraction_order_witness:
  "JObj [(''choices'', JArr [JObj [(''message'', JObj [(''content'', JStr ''Hi'')])]])] \<noteq> JNull
   \<and> extractText (JObj [(''choices'', JArr [JObj [(''message'', JObj [(''content'', JStr ''Hi'')])]])])
       = Inr (Some (JStr ''Hi''))
   \<and> extractText (JObj [(''result'', JStr ''ok'')]) = Inr (Some (JStr ''ok''))"
proof -
  have a: "extract_spec (JObj [(''choices'', JArr [JObj [(''message'', JObj [(''content'', JStr ''Hi'')])]])])
           = Inr (Some (JStr ''Hi''))"
    by code_simp
  have b: "extract_spec (JObj [(''result'', JStr ''ok'')]) = Inr (Some (JStr ''ok''))"
    by code_simp
  from extraction_order [of "JObj [(''choices'', JArr [JObj [(''message'', JObj [(''content'', JStr ''Hi'')])]])]"]
       extraction_order [of "JObj [(''result'', JStr ''ok'')]"] a b
  show ?thesis by simp
qed

text \<open>
  C7 as stated fails: a non-empty \<open>choices\<close> sequence whose element 0 is \<open>null\<close>
  does not make the first branch apply; the \<open>result\<close> branch answers.
\<close>

theorem falsy_choice_falls_through:
  "extractText (JObj [(''choices'', JArr [JNull]), (''result'', JStr ''ok'')]) = Inr (Some (JStr ''ok''))"
  by code_simp

subsection \<open>C8: Entries of \<open>data\<close>\<close>

text \<open>
  C8 (as amended). When the response has a \<open>data\<close> field that is a sequence without
  \<open>null\<close> elements, each element is mapped, in order, to its \<open>id\<close>, else \<open>name\<close>,
  else \<open>model\<close> (each taken when truthy), else its JSON text; the result is that list,
  or the fallback list when \<open>data\<close> is empty.
\<close>

theorem data_entries_mapped:
  assumes "field j ''data'' = Some (JArr xs)" and "\<forall>x \<in> set xs. x \<noteq> JNull"
  shows "catalog_models j = Inr (map entry_spec xs)
       \<and> normalize_catalog j = (if xs = [] then Inr (fallback_models, True) else Inr (map entry_spec xs, False))"
proof -
  from assms(1) have n: "j \<noteq> JNull" and a: "\<not> isArray (Some j)" by (cases j; simp)+
  from assms(2) have "\<And>x. x \<in> set xs \<Longrightarrow> catalog_entry x = Inr (entry_spec x)"
    by (simp add: catalog_entry_eq)
  from array_map_ok [of xs catalog_entry entry_spec, OF this]
  have m: "catalog_models j = Inr (map entry_spec xs)"
    using a assms(1) by (simp add: catalog_models_def get_field [OF n])
  then show ?thesis by (simp add: normalize_catalog_def)
qed

text \<open>C8 on the response the specification names.\<close>

theorem data_entries_mapped_witness:
  "field (JObj [(''data'', JArr [JObj [(''id'', JStr ''m1'')], JObj [(''id'', JStr ''m2'')]])]) ''data''
     = Some (JArr [JObj [(''id'', JStr ''m1'')], JObj [(''id'', JStr ''m2'')]])
   \<and> JObj [(''id'', JStr ''m1'')] \<noteq> JNull \<and> JObj [(''id'', JStr ''m2'')] \<noteq> JNull
   \<and> normalize_catalog (JObj [(''data'', JArr [JObj [(''id'', JStr ''m1'')], JObj [(''id'', JStr ''m2'')]])])
       = Inr ([Some (JStr ''m1''), Some (JStr ''m2'')], False)"
proof -
  have f: "field (JObj [(''data'', JArr [JObj [(''id'', JStr ''m1'')], JObj [(''id'', JStr ''m2'')]])]) ''data''
     = Some (JArr [JObj [(''id'', JStr ''m1'')], JObj [(''id'', JStr ''m2'')]])" by simp
  have n: "\<forall>x \<in> set [JObj [(''id'', JStr ''m1'')], JObj [(''id'', JStr ''m2'')]]. x \<noteq> JNull" by simp
  have e: "map entry_spec [JObj [(''id'', JStr ''m1'')], JObj [(''id'', JStr ''m2'')]]
           = [Some (JStr ''m1''), Some (JStr ''m2'')]" by (simp add: entry_spec_def)
  from data_entries_mapped [OF f n] f n e show ?thesis by simp
qed

text \<open>
  C8 as stated fails: a \<open>null\<close> element of \<open>data\<close> is not mapped to its JSON text;
  reading its \<open>id\<close> raises.
\<close>

theorem data_null_element_raises:
  "normalize_catalog (JObj [(''data'', JArr [JObj [(''id'', JStr ''m1'')], JNull])]) = Inl TypeError"
  by code_simp

subsection \<open>C9: Placeholder handles\<close>

text \<open>
  C9 (as amended). The placeholder of a send carries the handle made from the clock
  reading of that send, and the placeholders of two sends have the same handle exactly
  when the two clock readings are equal.
\<close>

theorem placeholder_handle_by_clock:
  assumes "promptEl w = Some v" and "trim v \<noteq> []"
    and "getApiKey (OPENAI_KEY w) (apiKeyInput w) = Some key"
    and "messagesEl w = Some els"
    and "promptEl w' = Some v'" and "trim v' \<noteq> []"
    and "getApiKey (OPENAI_KEY w') (apiKeyInput w') = Some key'"
    and "messagesEl w' = Some els'"
  shows "el_id (last (children (fst (sendChat_start B a w)))) = Some (thinkingId a)
       \<and> (el_id (last (children (fst (sendChat_start B a w))))
            = el_id (last (children (fst (sendChat_start B b w')))) \<longleftrightarrow> a = b)"
  by (auto simp: sendChat_start_ok [OF assms(1-4)] sendChat_start_ok [OF assms(5-8)] children_def
           dest: thinkingId_inj)

text \<open>C9 on two sends whose clock readings are 500 ms apart: the handles differ.\<close>

theorem placeholder_handle_by_clock_witness:
  "el_id (last (children (fst (sendChat_start example_browser 1700000000000 (example_page\<lparr> promptEl := Some ''first'' \<rparr>)))))
     \<noteq> el_id (last (children (fst (sendChat_start example_browser 1700000000500 busy_page))))"
proof -
  have p: "promptEl busy_page = Some ''second''" by (simp add: busy_page_def example_page_def)
  have t: "trim ''second'' \<noteq> []" by (simp add: trim_second)
  have k: "getApiKey (OPENAI_KEY busy_page) (apiKeyInput busy_page) = Some ''sk-test''"
    by (simp add: busy_page_def example_page_def key_example)
  have m: "messagesEl busy_page = Some [Elem ''msg user'' None [Text ''first''],
                                        Elem ''msg bot'' (Some ''thinking-1700000000000'') [Text ''Thinking...'']]"
    by (simp add: busy_page_def example_page_def)
  have p0: "promptEl (example_page\<lparr> promptEl := Some ''first'' \<rparr>) = Some ''first''" by simp
  have t0: "trim ''first'' \<noteq> []" by (simp add: trim_first)
  have k0: "getApiKey (OPENAI_KEY (example_page\<lparr> promptEl := Some ''first'' \<rparr>))
              (apiKeyInput (example_page\<lparr> promptEl := Some ''first'' \<rparr>)) = Some ''sk-test''"
    by (simp add: example_page_def key_example)
  have m0: "messagesEl (example_page\<lparr> promptEl := Some ''first'' \<rparr>) = Some []"
    by (simp add: example_page_def)
  from placeholder_handle_by_clock [OF p0 t0 k0 m0 p t k m, where B = example_browser and a = 1700000000000 and b = 1700000000500]
  have "el_id (last (children (fst (sendChat_start example_browser 1700000000000 (example_page\<lparr> promptEl := Some ''first'' \<rparr>)))))
          = el_id (last (children (fst (sendChat_start example_browser 1700000000500 busy_page))))
        \<longleftrightarrow> (1700000000000 :: int) = 1700000000500"
    by (rule conjunct2)
  then show ?thesis by simp
qed

text \<open>
  C9 as stated fails: two sends for which \<^verbatim>\<open>Date.now()\<close> reads the same millisecond
  put two placeholders with the same handle among the messages (beside the two user
  messages, which have none).
\<close>

theorem same_clock_same_handle:
  "map el_id (children (run example_browser
      [TypePrompt ''first'', RequestSend 1700000000000, TypePrompt ''second'', RequestSend 1700000000000]
      example_page))
   = [None, Some (thinkingId 1700000000000), None, Some (thinkingId 1700000000000)]"
  by (simp add: step_def example_page_def children_def
        sendChat_start_ok [where v = "''first''" and key = "''sk-test''"]
        sendChat_start_ok [where v = "''second''" and key = "''sk-test''"] trim_first trim_second key_example)

subsection \<open>C10: Errors are shown as text\<close>


end
